theory Spec2Isabelle
  imports Complex_Main
begin

section \<open>The sector outline builder\<close>

text \<open>
  The source computes on JavaScript numbers. They are modelled here as mathematical
  reals with the library functions \<open>Math.sin\<close>, \<open>Math.cos\<close>, \<open>Math.acos\<close>,
  \<open>Math.sqrt\<close>, \<open>Math.max\<close>, \<open>Math.min\<close> and \<open>Math.abs\<close> as \<^term>\<open>sin\<close>,
  \<^term>\<open>cos\<close>, \<^term>\<open>arccos\<close>, \<^term>\<open>sqrt\<close>, \<^term>\<open>max\<close>, \<^term>\<open>min\<close>
  and \<^term>\<open>abs\<close>. Rounding, infinities and signed zeros are outside this model;
  division is HOL's total division, which differs from the source only where the source
  divides by zero. \<open>undefined\<close> and \<open>NaN\<close> are modelled where the source can meet them
  on real input: in the corner radii that an empty array resolves to.

  The drawing context \<open>ctx\<close> is mutated by the source through \<open>moveTo\<close>, \<open>lineTo\<close>,
  \<open>arc\<close> and \<open>closePath\<close>. The model returns the list of these calls in the order in
  which they are made.
\<close>

subsection \<open>Constants\<close>

definition PI2 :: real where
  "PI2 = pi * 2"

text \<open>The tolerance \<open>e = 1e-4\<close> of the source.\<close>

definition eps :: real where
  "eps = 1 / 10000"

subsection \<open>Path commands\<close>

datatype path_cmd =
    MoveTo real real
  | LineTo real real
  | Arc real real real real real bool
  | ClosePath

fun is_MoveTo :: "path_cmd \<Rightarrow> bool" where
  "is_MoveTo (MoveTo x y) = True"
| "is_MoveTo c = False"

subsection \<open>The geometric kernel\<close>

text \<open>\<open>intersect\<close>: the bare \<open>return\<close> of the source is \<^term>\<open>None\<close>.\<close>

definition intersect ::
  "real \<Rightarrow> real \<Rightarrow> real \<Rightarrow> real \<Rightarrow> real \<Rightarrow> real \<Rightarrow> real \<Rightarrow> real \<Rightarrow> (real \<times> real) option" where
  "intersect x0 y0 x1 y1 x2 y2 x3 y3 =
    (let dx10 = x1 - x0;
         dy10 = y1 - y0;
         dx32 = x3 - x2;
         dy32 = y3 - y2;
         t = dy32 * dx10 - dx32 * dy10
     in if t * t < eps then None
        else (let t' = (dx32 * (y0 - y2) - dy32 * (x0 - x2)) / t
              in Some (x0 + t' * dx10, y0 + t' * dy10)))"

record corner_tangents =
  ct_cx :: real
  ct_cy :: real
  ct_x0 :: real
  ct_y0 :: real
  ct_x1 :: real
  ct_y1 :: real

definition computeCornerTangents ::
  "real \<Rightarrow> real \<Rightarrow> real \<Rightarrow> real \<Rightarrow> real \<Rightarrow> real \<Rightarrow> bool \<Rightarrow> corner_tangents" where
  "computeCornerTangents x0 y0 x1 y1 radius cr clockwise =
    (let x01 = x0 - x1;
         y01 = y0 - y1;
         lo = (if clockwise then cr else - cr) / sqrt (x01 * x01 + y01 * y01);
         ox = lo * y01;
         oy = - lo * x01;
         x11 = x0 + ox;
         y11 = y0 + oy;
         x10 = x1 + ox;
         y10 = y1 + oy;
         x00 = (x11 + x10) / 2;
         y00 = (y11 + y10) / 2;
         dx = x10 - x11;
         dy = y10 - y11;
         d2 = dx * dx + dy * dy;
         r = radius - cr;
         s = x11 * y10 - x10 * y11;
         d = (if dy < 0 then - 1 else 1) * sqrt (max 0 (r * r * d2 - s * s));
         cx0 = (s * dy - dx * d) / d2;
         cy0 = (- s * dx - dy * d) / d2;
         cx1 = (s * dy + dx * d) / d2;
         cy1 = (- s * dx + dy * d) / d2;
         dx0 = cx0 - x00;
         dy0 = cy0 - y00;
         dx1 = cx1 - x00;
         dy1 = cy1 - y00;
         far = dx0 * dx0 + dy0 * dy0 > dx1 * dx1 + dy1 * dy1;
         cx0' = (if far then cx1 else cx0);
         cy0' = (if far then cy1 else cy0)
     in \<lparr> ct_cx = cx0', ct_cy = cy0',
          ct_x0 = - ox, ct_y0 = - oy,
          ct_x1 = cx0' * (radius / r - 1),
          ct_y1 = cy0' * (radius / r - 1) \<rparr>)"

definition calcCircleCenter :: "real \<Rightarrow> real \<Rightarrow> real \<Rightarrow> real \<Rightarrow> real \<times> real" where
  "calcCircleCenter x y r angle = (x + r * cos angle, y + r * sin angle)"

text \<open>
  \<open>Math.atan2\<close> on reals, with values in \<open>(-\<pi>, \<pi>]\<close>. The reals have one zero:
  where the source distinguishes \<open>-0\<close> from \<open>+0\<close>, as in \<open>Math.atan2(0, -0) = \<pi>\<close>, this
  function returns the value for \<open>+0\<close>.
\<close>

definition mathATan2 :: "real \<Rightarrow> real \<Rightarrow> real" where
  "mathATan2 y x =
    (if 0 < x then arctan (y / x)
     else if x < 0 then (if 0 \<le> y then arctan (y / x) + pi else arctan (y / x) - pi)
     else if 0 < y then pi / 2
     else if y < 0 then - (pi / 2)
     else 0)"

subsection \<open>Corner-radius specifications\<close>

text \<open>
  An entry of a corner-radius specification has the type \<open>number | string\<close> in the
  source. \<open>Plain v\<close> is the number \<open>v\<close> (or a string that parses as \<open>v\<close>);
  \<open>Percent n\<close> is the string \<open>"n%"\<close>.
\<close>

datatype cr_entry = Plain real | Percent real

datatype corner_spec = Scalar cr_entry | Array "cr_entry list"

text \<open>
  Modelled from the spec: \<open>parsePercent\<close> is imported from \<open>contain/text\<close>, which is
  not among the source files. The spec says: any radius value provided as a string ending
  in \<open>%\<close> resolves to (numeric part / 100) * base; non-percentage values parse as plain
  numbers.
\<close>

fun parsePercent :: "cr_entry \<Rightarrow> real \<Rightarrow> real" where
  "parsePercent (Percent n) base = n / 100 * base"
| "parsePercent (Plain v) base = v"

subsection \<open>Numbers that may be undefined\<close>

text \<open>
  A resolved corner radius is a number or \<open>undefined\<close>. It has the type
  \<^typ>\<open>real option\<close>, where \<^term>\<open>None\<close> is \<open>undefined\<close> and the \<open>NaN\<close> that
  arithmetic makes of it: \<open>Math.min\<close> and \<open>Math.max\<close> return \<open>NaN\<close> when an argument
  is \<open>undefined\<close> or \<open>NaN\<close>, and a comparison with \<open>NaN\<close> is false.
\<close>

fun mathMin :: "real option \<Rightarrow> real option \<Rightarrow> real option" where
  "mathMin (Some a) (Some b) = Some (min a b)"
| "mathMin a b = None"

fun mathMax :: "real option \<Rightarrow> real option \<Rightarrow> real option" where
  "mathMax (Some a) (Some b) = Some (max a b)"
| "mathMax a b = None"

text \<open>The comparisons \<open>a > b\<close> and \<open>a < b\<close>.\<close>

fun num_gt :: "real option \<Rightarrow> real option \<Rightarrow> bool" where
  "num_gt (Some a) (Some b) = (a > b)"
| "num_gt a b = False"

fun num_lt :: "real option \<Rightarrow> real option \<Rightarrow> bool" where
  "num_lt (Some a) (Some b) = (a < b)"
| "num_lt a b = False"

text \<open>
  The sink and \<open>computeCornerTangents\<close> take reals. The source hands them a corner radius
  only under the tests \<open>limitedOcrMax > e\<close> and \<open>limitedIcrMax > e\<close>, where
  \<open>buildPath\<close> has a number in every corner radius it passes on (lemma
  \<open>corner_radii_defined\<close> below). \<open>num\<close> reads such a number; its value on
  \<open>undefined\<close> is never used by \<open>buildPath\<close>.
\<close>

fun num :: "real option \<Rightarrow> real" where
  "num (Some a) = a"
| "num None = 0"

subsection \<open>The corner-radius resolver\<close>

text \<open>
  \<open>normalizeCornerRadius\<close>. The array \<open>arr\<close> holds entries or \<open>undefined\<close>: for an
  array that has not two, three or four entries the source builds
  \<open>[cr[0], cr[0], 0, 0]\<close>, and \<open>cr[0]\<close> is \<open>undefined\<close> on the empty array. The callback
  of \<open>map\<close> receives the entry and its index.

  Modelled from the spec: \<open>parsePercent\<close> is applied to \<open>undefined\<close> as well. The
  spec is silent on that argument; an \<open>undefined\<close> value is neither a string ending in
  \<open>%\<close> nor a number, and \<open>parsePercent\<close> is taken to return without throwing a
  result that has no numeric value (\<open>undefined\<close> or \<open>NaN\<close>), here \<^term>\<open>None\<close>.
\<close>

definition normalizeCornerRadius :: "corner_spec \<Rightarrow> real \<Rightarrow> real \<Rightarrow> real option list" where
  "normalizeCornerRadius cr r0 r =
    (let arr =
       (case cr of
          Array xs \<Rightarrow>
            (let len = length xs in
             if len = 4 then map Some xs
             else if len = 3 then map Some (xs @ [xs ! (len - 1)])
             else if len = 2 then [Some (xs ! 0), Some (xs ! 0), Some (xs ! 1), Some (xs ! 1)]
             else (let cr0 = (case xs of [] \<Rightarrow> None | c # _ \<Rightarrow> Some c)
                   in [cr0, cr0, Some (Plain 0), Some (Plain 0)]))
        | Scalar c \<Rightarrow> [Some c, Some c, Some c, Some c])
     in map (\<lambda>(c, idx). map_option (\<lambda>v. parsePercent v (if idx < 2 then r0 else r)) c)
          (zip arr [0 ..< length arr]))"

subsection \<open>Angle normalisation\<close>

text \<open>
  Modelled from the spec: \<open>normalizeArcAngles\<close> is imported from \<open>core/PathProxy\<close>,
  which is not among the source files. The spec says that both angles are normalised into
  the canonical range of the chosen winding, and that the sweep is the absolute
  difference of the normalised angles. Here the start angle is brought into
  \<open>[0, 2\<pi>)\<close>, the end angle is moved by the same amount and then brought into
  \<open>[start, start + 2\<pi>]\<close> for a clockwise measure and into \<open>[start - 2\<pi>, start]\<close>
  for an anticlockwise one; \<open>modPI2\<close> is the remainder modulo \<open>2\<pi>\<close> that it uses.
  \<open>buildPath\<close> below takes the normaliser as a parameter; this definition instantiates
  it in the closed examples only.
\<close>

definition modPI2 :: "real \<Rightarrow> real" where
  "modPI2 x = x - PI2 * of_int \<lfloor>x / PI2\<rfloor>"

definition normalizeArcAngles :: "real \<times> real \<Rightarrow> bool \<Rightarrow> real \<times> real" where
  "normalizeArcAngles angles anticlockwise =
    (let newStartAngle = modPI2 (fst angles);
         delta = newStartAngle - fst angles;
         newEndAngle = snd angles + delta
     in (newStartAngle,
         if \<not> anticlockwise \<and> newEndAngle - newStartAngle \<ge> PI2 then newStartAngle + PI2
         else if anticlockwise \<and> newStartAngle - newEndAngle \<ge> PI2 then newStartAngle - PI2
         else if \<not> anticlockwise \<and> newStartAngle > newEndAngle
           then newStartAngle + (PI2 - modPI2 (newStartAngle - newEndAngle))
         else if anticlockwise \<and> newStartAngle < newEndAngle
           then newStartAngle - (PI2 - modPI2 (newEndAngle - newStartAngle))
         else newEndAngle))"

subsection \<open>buildPath\<close>

record shape =
  shape_cx :: real
  shape_cy :: real
  shape_startAngle :: real
  shape_endAngle :: real
  shape_clockwise :: bool
  shape_r :: real
  shape_r0 :: real
  shape_cornerRadius :: corner_spec

text \<open>
  Lines 136 to 156: the effective outer and inner radius. \<^term>\<open>None\<close> is the early
  \<open>return\<close> of line 142. \<open>r0 || 0\<close> is \<open>r0\<close> for a real \<open>r0\<close>.
\<close>

definition effectiveRadii :: "real \<Rightarrow> real \<Rightarrow> (real \<times> real) option" where
  "effectiveRadii r r0 =
    (let radius = max r 0;
         innerRadius = max r0 0;
         hasRadius = radius > 0;
         hasInnerRadius = innerRadius > 0
     in if \<not> hasRadius \<and> \<not> hasInnerRadius then None
        else (let (radius, innerRadius) =
                    (if \<not> hasRadius then (innerRadius, 0) else (radius, innerRadius))
              in if innerRadius > radius then Some (innerRadius, radius)
                 else Some (radius, innerRadius)))"

text \<open>
  Lines 162 to 171: the sweep \<open>arc\<close>. \<open>nrm\<close> stands for \<open>normalizeArcAngles\<close>,
  which returns the two angles it writes back into \<open>tmpAngles\<close>.
\<close>

definition sweep :: "(real \<times> real \<Rightarrow> bool \<Rightarrow> real \<times> real) \<Rightarrow> real \<Rightarrow> real \<Rightarrow> bool \<Rightarrow> real" where
  "sweep nrm startAngle endAngle clockwise =
    (if startAngle = endAngle then 0
     else (let tmpAngles = nrm (startAngle, endAngle) (\<not> clockwise)
           in \<bar>fst tmpAngles - snd tmpAngles\<bar>))"

text \<open>
  Lines 201 to 237: the pair \<open>(limitedOcrMax, limitedIcrMax)\<close>. The source assigns
  \<open>xre\<close>, \<open>yre\<close>, \<open>xirs\<close> and \<open>yirs\<close> only when a corner radius exceeds the
  tolerance and reads them later only in that case.
\<close>

definition restrictCornerRadius ::
  "real \<Rightarrow> real \<Rightarrow> real \<Rightarrow> real \<Rightarrow> real \<Rightarrow> real option \<Rightarrow> real option
    \<Rightarrow> real option \<times> real option" where
  "restrictCornerRadius radius innerRadius startAngle endAngle arc ocrMax icrMax =
    (let xrs = radius * cos startAngle;
         yrs = radius * sin startAngle;
         xire = innerRadius * cos endAngle;
         yire = innerRadius * sin endAngle
     in if num_gt ocrMax (Some eps) \<or> num_gt icrMax (Some eps) then
          (let xre = radius * cos endAngle;
               yre = radius * sin endAngle;
               xirs = innerRadius * cos startAngle;
               yirs = innerRadius * sin startAngle
           in if arc < pi then
                (case intersect xrs yrs xirs yirs xre yre xire yire of
                   None \<Rightarrow> (ocrMax, icrMax)
                 | Some it \<Rightarrow>
                     (let x0 = xrs - fst it;
                          y0 = yrs - snd it;
                          x1 = xre - fst it;
                          y1 = yre - snd it;
                          a = 1 / sin (arccos ((x0 * x1 + y0 * y1)
                                 / (sqrt (x0 * x0 + y0 * y0) * sqrt (x1 * x1 + y1 * y1))) / 2);
                          b = sqrt (fst it * fst it + snd it * snd it)
                      in (mathMin ocrMax (Some ((radius - b) / (a + 1))),
                          mathMin icrMax (Some ((innerRadius - b) / (a - 1))))))
              else (ocrMax, icrMax))
        else (ocrMax, icrMax))"

text \<open>Lines 240 to 271: the commands of the outer ring.\<close>

definition outerRing ::
  "real \<Rightarrow> real \<Rightarrow> real \<Rightarrow> real \<Rightarrow> real \<Rightarrow> real \<Rightarrow> bool \<Rightarrow> real
    \<Rightarrow> real option \<Rightarrow> real option \<Rightarrow> real option \<Rightarrow> real option
    \<Rightarrow> path_cmd list" where
  "outerRing cx cy radius innerRadius startAngle endAngle clockwise arc
      ocrStart ocrEnd ocrMax limitedOcrMax =
    (let xrs = radius * cos startAngle;
         yrs = radius * sin startAngle;
         xire = innerRadius * cos endAngle;
         yire = innerRadius * sin endAngle;
         xre = radius * cos endAngle;
         yre = radius * sin endAngle;
         xirs = innerRadius * cos startAngle;
         yirs = innerRadius * sin startAngle
     in if \<not> arc > eps then [MoveTo (cx + xrs) (cy + yrs)]
        else if num_gt limitedOcrMax (Some eps) then
          (let crStart = mathMin ocrStart limitedOcrMax;
               crEnd = mathMin ocrEnd limitedOcrMax;
               ct0 = computeCornerTangents xirs yirs xrs yrs radius (num crStart) clockwise;
               ct1 = computeCornerTangents xre yre xire yire radius (num crEnd) clockwise
           in MoveTo (cx + ct_cx ct0 + ct_x0 ct0) (cy + ct_cy ct0 + ct_y0 ct0) #
              (if num_lt limitedOcrMax ocrMax then
                 [Arc (cx + ct_cx ct0) (cy + ct_cy ct0) (num limitedOcrMax)
                    (mathATan2 (ct_y0 ct0) (ct_x0 ct0)) (mathATan2 (ct_y0 ct1) (ct_x0 ct1))
                    (\<not> clockwise)]
               else
                 [Arc (cx + ct_cx ct0) (cy + ct_cy ct0) (num crStart)
                    (mathATan2 (ct_y0 ct0) (ct_x0 ct0)) (mathATan2 (ct_y1 ct0) (ct_x1 ct0))
                    (\<not> clockwise),
                  Arc cx cy radius
                    (mathATan2 (ct_cy ct0 + ct_y1 ct0) (ct_cx ct0 + ct_x1 ct0))
                    (mathATan2 (ct_cy ct1 + ct_y1 ct1) (ct_cx ct1 + ct_x1 ct1))
                    (\<not> clockwise),
                  Arc (cx + ct_cx ct1) (cy + ct_cy ct1) (num crEnd)
                    (mathATan2 (ct_y1 ct1) (ct_x1 ct1)) (mathATan2 (ct_y0 ct1) (ct_x0 ct1))
                    (\<not> clockwise)]))
        else [MoveTo (cx + xrs) (cy + yrs),
              Arc cx cy radius startAngle endAngle (\<not> clockwise)])"

text \<open>Lines 274 to 303: the commands of the inner ring.\<close>

definition innerRing ::
  "real \<Rightarrow> real \<Rightarrow> real \<Rightarrow> real \<Rightarrow> real \<Rightarrow> real \<Rightarrow> bool \<Rightarrow> real
    \<Rightarrow> real option \<Rightarrow> real option \<Rightarrow> real option \<Rightarrow> real option
    \<Rightarrow> path_cmd list" where
  "innerRing cx cy radius innerRadius startAngle endAngle clockwise arc
      icrStart icrEnd icrMax limitedIcrMax =
    (let xrs = radius * cos startAngle;
         yrs = radius * sin startAngle;
         xire = innerRadius * cos endAngle;
         yire = innerRadius * sin endAngle;
         xre = radius * cos endAngle;
         yre = radius * sin endAngle;
         xirs = innerRadius * cos startAngle;
         yirs = innerRadius * sin startAngle
     in if \<not> innerRadius > eps \<or> \<not> arc > eps then [LineTo (cx + xire) (cy + yire)]
        else if num_gt limitedIcrMax (Some eps) then
          (let crStart = mathMin icrStart limitedIcrMax;
               crEnd = mathMin icrEnd limitedIcrMax;
               ct0 = computeCornerTangents xire yire xre yre innerRadius (- num crEnd) clockwise;
               ct1 = computeCornerTangents xrs yrs xirs yirs innerRadius (- num crStart) clockwise
           in LineTo (cx + ct_cx ct0 + ct_x0 ct0) (cy + ct_cy ct0 + ct_y0 ct0) #
              (if num_lt limitedIcrMax icrMax then
                 [Arc (cx + ct_cx ct0) (cy + ct_cy ct0) (num limitedIcrMax)
                    (mathATan2 (ct_y0 ct0) (ct_x0 ct0)) (mathATan2 (ct_y0 ct1) (ct_x0 ct1))
                    (\<not> clockwise)]
               else
                 [Arc (cx + ct_cx ct0) (cy + ct_cy ct0) (num crEnd)
                    (mathATan2 (ct_y0 ct0) (ct_x0 ct0)) (mathATan2 (ct_y1 ct0) (ct_x1 ct0))
                    (\<not> clockwise),
                  Arc cx cy innerRadius
                    (mathATan2 (ct_cy ct0 + ct_y1 ct0) (ct_cx ct0 + ct_x1 ct0))
                    (mathATan2 (ct_cy ct1 + ct_y1 ct1) (ct_cx ct1 + ct_x1 ct1))
                    clockwise,
                  Arc (cx + ct_cx ct1) (cy + ct_cy ct1) (num crStart)
                    (mathATan2 (ct_y1 ct1) (ct_x1 ct1)) (mathATan2 (ct_y0 ct1) (ct_x0 ct1))
                    (\<not> clockwise)]))
        else [Arc cx cy innerRadius endAngle startAngle clockwise])"

text \<open>Lines 193 to 303: a circular or annular sector.\<close>

definition sectorPath ::
  "real \<Rightarrow> real \<Rightarrow> real \<Rightarrow> real \<Rightarrow> real \<Rightarrow> real \<Rightarrow> bool \<Rightarrow> real
    \<Rightarrow> real option \<Rightarrow> real option \<Rightarrow> real option \<Rightarrow> real option
    \<Rightarrow> path_cmd list" where
  "sectorPath cx cy radius innerRadius startAngle endAngle clockwise arc
      icrStart icrEnd ocrStart ocrEnd =
    (let halfRd = Some (\<bar>radius - innerRadius\<bar> / 2);
         ocrs = mathMin halfRd ocrStart;
         ocre = mathMin halfRd ocrEnd;
         icrs = mathMin halfRd icrStart;
         icre = mathMin halfRd icrEnd;
         ocrMax = mathMax ocrs ocre;
         icrMax = mathMax icrs icre;
         (limitedOcrMax, limitedIcrMax) =
           restrictCornerRadius radius innerRadius startAngle endAngle arc ocrMax icrMax
     in outerRing cx cy radius innerRadius startAngle endAngle clockwise arc
          ocrStart ocrEnd ocrMax limitedOcrMax
        @ innerRing cx cy radius innerRadius startAngle endAngle clockwise arc
            icrStart icrEnd icrMax limitedIcrMax)"

text \<open>Lines 180 to 190: a circle or an annulus.\<close>

definition fullRing :: "real \<Rightarrow> real \<Rightarrow> real \<Rightarrow> real \<Rightarrow> real \<Rightarrow> real \<Rightarrow> bool \<Rightarrow> path_cmd list" where
  "fullRing cx cy radius innerRadius startAngle endAngle clockwise =
    (let (x, y) = calcCircleCenter cx cy radius startAngle
     in [MoveTo x y, Arc cx cy radius startAngle endAngle (\<not> clockwise)]
        @ (if innerRadius > eps then
             (let (x, y) = calcCircleCenter cx cy innerRadius endAngle
              in [MoveTo x y, Arc cx cy innerRadius endAngle startAngle clockwise])
           else []))"

text \<open>
  \<open>buildPath\<close>: the commands sent to \<open>ctx\<close>, in order. The destructuring of line 173
  reads the four entries of the resolved array by index.
\<close>

definition buildPath ::
  "(real \<times> real \<Rightarrow> bool \<Rightarrow> real \<times> real) \<Rightarrow> shape \<Rightarrow> path_cmd list" where
  "buildPath nrm sh =
    (let r = shape_r sh; r0 = shape_r0 sh in
     case effectiveRadii r r0 of
       None \<Rightarrow> []
     | Some (radius, innerRadius) \<Rightarrow>
         (let clockwise = shape_clockwise sh;
              startAngle = shape_startAngle sh;
              endAngle = shape_endAngle sh;
              cx = shape_cx sh;
              cy = shape_cy sh;
              cornerRadius = shape_cornerRadius sh;
              arc = sweep nrm startAngle endAngle clockwise;
              crs = normalizeCornerRadius cornerRadius r0 r;
              icrStart = crs ! 0; icrEnd = crs ! 1;
              ocrStart = crs ! 2; ocrEnd = crs ! 3
          in (if \<not> radius > eps then [MoveTo cx cy]
              else if arc > PI2 - eps then
                fullRing cx cy radius innerRadius startAngle endAngle clockwise
              else
                sectorPath cx cy radius innerRadius startAngle endAngle clockwise arc
                  icrStart icrEnd ocrStart ocrEnd)
             @ [ClosePath]))"

subsection \<open>Specifications without a percentage\<close>

fun is_Plain :: "cr_entry \<Rightarrow> bool" where
  "is_Plain (Plain v) = True"
| "is_Plain (Percent n) = False"

fun noPercent :: "corner_spec \<Rightarrow> bool" where
  "noPercent (Scalar c) = is_Plain c"
| "noPercent (Array xs) = list_all is_Plain xs"

section \<open>Auxiliary facts\<close>

subsection \<open>Radii and corner radii\<close>

lemma effectiveRadii_None: "effectiveRadii r r0 = None \<longleftrightarrow> max r 0 \<le> 0 \<and> max r0 0 \<le> 0"
  by (auto simp: effectiveRadii_def Let_def split: if_splits)

lemma effectiveRadii_Some:
  "effectiveRadii r r0 = Some (a, b) \<Longrightarrow>
     a = max (max r 0) (max r0 0) \<and> b = min (max r 0) (max r0 0) \<and> 0 < a \<and> 0 \<le> b \<and> b \<le> a"
  by (auto simp: effectiveRadii_def Let_def split: if_splits)

lemma effectiveRadii_eq:
  "effectiveRadii r r0 =
     (if r \<le> 0 \<and> r0 \<le> 0 then None else Some (max (max r 0) (max r0 0), min (max r 0) (max r0 0)))"
  by (auto simp: effectiveRadii_def Let_def)

lemma effectiveRadii_swap: "effectiveRadii r0 r = effectiveRadii r r0"
  by (auto simp: effectiveRadii_def Let_def split: if_splits)

lemma halfRd_le:
  assumes "effectiveRadii r r0 = Some (radius, innerRadius)"
  shows "\<bar>radius - innerRadius\<bar> / 2 \<le> \<bar>r - r0\<bar> / 2"
  using assms by (auto simp: effectiveRadii_def Let_def split: if_splits)

lemma parsePercent_Plain: "is_Plain c \<Longrightarrow> parsePercent c b = parsePercent c b'"
  by (cases c) simp_all

lemma normalizeCornerRadius_noPercent:
  assumes "noPercent cr"
  shows "normalizeCornerRadius cr p q = normalizeCornerRadius cr p' q'"
proof -
  define arr where "arr =
       (case cr of
          Array xs \<Rightarrow>
            (let len = length xs in
             if len = 4 then map Some xs
             else if len = 3 then map Some (xs @ [xs ! (len - 1)])
             else if len = 2 then [Some (xs ! 0), Some (xs ! 0), Some (xs ! 1), Some (xs ! 1)]
             else (let cr0 = (case xs of [] \<Rightarrow> None | c # _ \<Rightarrow> Some c)
                   in [cr0, cr0, Some (Plain 0), Some (Plain 0)]))
        | Scalar c \<Rightarrow> [Some c, Some c, Some c, Some c])"
  have plain: "\<forall>c. Some c \<in> set arr \<longrightarrow> is_Plain c"
  proof (cases cr)
    case (Scalar c)
    then show ?thesis using assms by (auto simp: arr_def)
  next
    case (Array xs)
    then have all: "list_all is_Plain xs"
      using assms by simp
    then have "\<forall>i < length xs. is_Plain (xs ! i)"
      by (simp add: list_all_length)
    then show ?thesis using Array all
      by (auto simp: arr_def Let_def list_all_iff split: if_splits list.splits)
  qed
  have unfold: "normalizeCornerRadius cr a b =
      map (\<lambda>(c, idx). map_option (\<lambda>v. parsePercent v (if idx < 2 then a else b)) c)
          (zip arr [0 ..< length arr])" for a b
    by (simp add: normalizeCornerRadius_def arr_def Let_def)
  have "map_option (\<lambda>v. parsePercent v a) c = map_option (\<lambda>v. parsePercent v b) c"
    if "(c, i) \<in> set (zip arr ns)" for ns :: "nat list" and c i a b
    using plain set_zip_leftD[OF that] parsePercent_Plain[of _ a b]
    by (cases c) auto
  then have "map (\<lambda>(c, idx). map_option (\<lambda>v. parsePercent v (if idx < 2 then p else q)) c)
                 (zip arr [0 ..< length arr])
           = map (\<lambda>(c, idx). map_option (\<lambda>v. parsePercent v (if idx < 2 then p' else q')) c)
                 (zip arr [0 ..< length arr])"
    by (intro map_cong[OF refl]) (auto split: prod.splits)
  then show ?thesis by (simp add: unfold)
qed

subsection \<open>The branches of buildPath\<close>

lemma buildPath_early:
  "effectiveRadii (shape_r sh) (shape_r0 sh) = None \<Longrightarrow> buildPath nrm sh = []"
  by (simp add: buildPath_def)

lemma buildPath_body:
  assumes "effectiveRadii (shape_r sh) (shape_r0 sh) = Some (radius, innerRadius)"
    and "crs = normalizeCornerRadius (shape_cornerRadius sh) (shape_r0 sh) (shape_r sh)"
  shows "buildPath nrm sh =
     (if \<not> radius > eps then [MoveTo (shape_cx sh) (shape_cy sh)]
      else if sweep nrm (shape_startAngle sh) (shape_endAngle sh) (shape_clockwise sh)
                > PI2 - eps then
         fullRing (shape_cx sh) (shape_cy sh) radius innerRadius
           (shape_startAngle sh) (shape_endAngle sh) (shape_clockwise sh)
      else sectorPath (shape_cx sh) (shape_cy sh) radius innerRadius
             (shape_startAngle sh) (shape_endAngle sh) (shape_clockwise sh)
             (sweep nrm (shape_startAngle sh) (shape_endAngle sh) (shape_clockwise sh))
             (crs ! 0) (crs ! 1) (crs ! 2) (crs ! 3)) @ [ClosePath]"
  using assms by (simp add: buildPath_def Let_def)

lemma sectorPath_unfold:
  "sectorPath cx cy radius innerRadius startAngle endAngle clockwise arc icrStart icrEnd ocrStart ocrEnd =
     outerRing cx cy radius innerRadius startAngle endAngle clockwise arc ocrStart ocrEnd
       (mathMax (mathMin (Some (\<bar>radius - innerRadius\<bar> / 2)) ocrStart)
                (mathMin (Some (\<bar>radius - innerRadius\<bar> / 2)) ocrEnd))
       (fst (restrictCornerRadius radius innerRadius startAngle endAngle arc
          (mathMax (mathMin (Some (\<bar>radius - innerRadius\<bar> / 2)) ocrStart)
                   (mathMin (Some (\<bar>radius - innerRadius\<bar> / 2)) ocrEnd))
          (mathMax (mathMin (Some (\<bar>radius - innerRadius\<bar> / 2)) icrStart)
                   (mathMin (Some (\<bar>radius - innerRadius\<bar> / 2)) icrEnd))))
     @ innerRing cx cy radius innerRadius startAngle endAngle clockwise arc icrStart icrEnd
       (mathMax (mathMin (Some (\<bar>radius - innerRadius\<bar> / 2)) icrStart)
                (mathMin (Some (\<bar>radius - innerRadius\<bar> / 2)) icrEnd))
       (snd (restrictCornerRadius radius innerRadius startAngle endAngle arc
          (mathMax (mathMin (Some (\<bar>radius - innerRadius\<bar> / 2)) ocrStart)
                   (mathMin (Some (\<bar>radius - innerRadius\<bar> / 2)) ocrEnd))
          (mathMax (mathMin (Some (\<bar>radius - innerRadius\<bar> / 2)) icrStart)
                   (mathMin (Some (\<bar>radius - innerRadius\<bar> / 2)) icrEnd))))"
  by (simp add: sectorPath_def Let_def case_prod_beta)

lemma outerRing_hd:
  "\<exists>x y cs. outerRing cx cy radius innerRadius startAngle endAngle clockwise arc a b c d
             = MoveTo x y # cs"
  by (simp add: outerRing_def Let_def)

lemma sectorPath_hd:
  "\<exists>x y cs. sectorPath cx cy radius innerRadius startAngle endAngle clockwise arc a b c d
             = MoveTo x y # cs"
  unfolding sectorPath_unfold
  using outerRing_hd[of cx cy radius innerRadius startAngle endAngle clockwise arc c d]
  by (metis append_Cons)

lemma fullRing_hd:
  "\<exists>x y cs. fullRing cx cy radius innerRadius startAngle endAngle clockwise = MoveTo x y # cs"
  by (simp add: fullRing_def calcCircleCenter_def Let_def)

subsection \<open>Undefined corner radii\<close>

lemma num_gt_Some: "num_gt a (Some e) \<longleftrightarrow> (\<exists>v. a = Some v \<and> v > e)"
  by (cases a) simp_all

lemma num_lt_iff: "num_lt a b \<longleftrightarrow> (\<exists>v w. a = Some v \<and> b = Some w \<and> v < w)"
  by (cases a; cases b) simp_all

lemma mathMin_Some: "mathMin a b = Some m \<longleftrightarrow> (\<exists>v w. a = Some v \<and> b = Some w \<and> m = min v w)"
  by (cases a; cases b) auto

lemma mathMax_Some: "mathMax a b = Some m \<longleftrightarrow> (\<exists>v w. a = Some v \<and> b = Some w \<and> m = max v w)"
  by (cases a; cases b) auto

lemma restrictCornerRadius_le:
  "fst (restrictCornerRadius radius innerRadius startAngle endAngle arc ocrMax icrMax) = Some l
     \<Longrightarrow> \<exists>m. ocrMax = Some m \<and> l \<le> m"
  "snd (restrictCornerRadius radius innerRadius startAngle endAngle arc ocrMax icrMax) = Some l
     \<Longrightarrow> \<exists>m. icrMax = Some m \<and> l \<le> m"
  by (auto simp: restrictCornerRadius_def Let_def mathMin_Some split: option.splits if_splits)

lemma clamped_max_le:
  "mathMax (mathMin (Some h) a) (mathMin (Some h) b) = Some m \<Longrightarrow> m \<le> h"
  by (auto simp: mathMax_Some mathMin_Some)

text \<open>
  Where a limited maximum passes the test against the tolerance, the two corner radii
  behind it are numbers.
\<close>

lemma corner_radii_defined:
  assumes "num_gt (fst (restrictCornerRadius radius innerRadius startAngle endAngle arc
                     (mathMax (mathMin h ocrStart) (mathMin h ocrEnd))
                     (mathMax (mathMin h icrStart) (mathMin h icrEnd)))) (Some eps)"
  shows "ocrStart \<noteq> None \<and> ocrEnd \<noteq> None"
  using assms restrictCornerRadius_le(1)[of radius innerRadius startAngle endAngle arc
      "mathMax (mathMin h ocrStart) (mathMin h ocrEnd)" "mathMax (mathMin h icrStart) (mathMin h icrEnd)"]
  by (auto simp: num_gt_Some mathMax_Some mathMin_Some)

lemma corner_radii_defined_inner:
  assumes "num_gt (snd (restrictCornerRadius radius innerRadius startAngle endAngle arc
                     (mathMax (mathMin h ocrStart) (mathMin h ocrEnd))
                     (mathMax (mathMin h icrStart) (mathMin h icrEnd)))) (Some eps)"
  shows "icrStart \<noteq> None \<and> icrEnd \<noteq> None"
  using assms restrictCornerRadius_le(2)[of radius innerRadius startAngle endAngle arc
      "mathMax (mathMin h ocrStart) (mathMin h ocrEnd)" "mathMax (mathMin h icrStart) (mathMin h icrEnd)"]
  by (auto simp: num_gt_Some mathMax_Some mathMin_Some)

subsection \<open>The radii of the arcs\<close>

lemma outerRing_arcs:
  assumes "Arc x y rad a0 a1 acw
             \<in> set (outerRing cx cy radius innerRadius startAngle endAngle clockwise arc
                      ocrStart ocrEnd ocrMax limitedOcrMax)"
  shows "(x = cx \<and> y = cy \<and> rad = radius) \<or> (\<exists>l. limitedOcrMax = Some l \<and> rad \<le> l)"
  using assms
  by (cases ocrStart; cases ocrEnd)
     (auto simp: outerRing_def Let_def num_gt_Some eps_def split: if_splits)

lemma innerRing_arcs:
  assumes "Arc x y rad a0 a1 acw
             \<in> set (innerRing cx cy radius innerRadius startAngle endAngle clockwise arc
                      icrStart icrEnd icrMax limitedIcrMax)"
  shows "(x = cx \<and> y = cy \<and> rad = innerRadius) \<or> (\<exists>l. limitedIcrMax = Some l \<and> rad \<le> l)"
  using assms
  by (cases icrStart; cases icrEnd)
     (auto simp: innerRing_def Let_def num_gt_Some eps_def split: if_splits)

lemma fullRing_arcs:
  assumes "Arc x y rad a0 a1 acw
             \<in> set (fullRing cx cy radius innerRadius startAngle endAngle clockwise)"
  shows "x = cx \<and> y = cy \<and> (rad = radius \<or> rad = innerRadius)"
  using assms by (auto simp: fullRing_def calcCircleCenter_def Let_def split: if_splits)

lemma sectorPath_arcs:
  assumes "Arc x y rad a0 a1 acw
             \<in> set (sectorPath cx cy radius innerRadius startAngle endAngle clockwise arc
                      icrStart icrEnd ocrStart ocrEnd)"
  shows "(x = cx \<and> y = cy \<and> (rad = radius \<or> rad = innerRadius))
         \<or> rad \<le> \<bar>radius - innerRadius\<bar> / 2"
proof -
  define h where "h = \<bar>radius - innerRadius\<bar> / 2"
  define om where "om = mathMax (mathMin (Some h) ocrStart) (mathMin (Some h) ocrEnd)"
  define im where "im = mathMax (mathMin (Some h) icrStart) (mathMin (Some h) icrEnd)"
  define lim where "lim = restrictCornerRadius radius innerRadius startAngle endAngle arc om im"
  have o: "l \<le> h" if "fst lim = Some l" for l
    using restrictCornerRadius_le(1)[OF that[unfolded lim_def]] clamped_max_le[of h ocrStart ocrEnd]
    unfolding om_def by auto
  have i: "l \<le> h" if "snd lim = Some l" for l
    using restrictCornerRadius_le(2)[OF that[unfolded lim_def]] clamped_max_le[of h icrStart icrEnd]
    unfolding im_def by auto
  let ?outer = "outerRing cx cy radius innerRadius startAngle endAngle clockwise arc
                  ocrStart ocrEnd om (fst lim)"
  let ?inner = "innerRing cx cy radius innerRadius startAngle endAngle clockwise arc
                  icrStart icrEnd im (snd lim)"
  from assms have "Arc x y rad a0 a1 acw \<in> set ?outer \<or> Arc x y rad a0 a1 acw \<in> set ?inner"
    unfolding sectorPath_unfold lim_def om_def im_def h_def by simp
  then show ?thesis
  proof
    assume "Arc x y rad a0 a1 acw \<in> set ?outer"
    from outerRing_arcs[OF this] o show ?thesis unfolding h_def by fastforce
  next
    assume "Arc x y rad a0 a1 acw \<in> set ?inner"
    from innerRing_arcs[OF this] i show ?thesis unfolding h_def by fastforce
  qed
qed

lemma normalizeCornerRadius_empty:
  "normalizeCornerRadius (Array []) r0 r = [None, None, Some 0, Some 0]"
  by (simp add: normalizeCornerRadius_def Let_def upt_rec)

subsection \<open>The tangent-line restriction\<close>

text \<open>
  The two radial edges of a sector meet at the centre, so an intersection that
  \<open>intersect\<close> returns for them is the origin, \<open>b\<close> is \<open>0\<close> and \<open>a\<close> is determined by
  the angle between the start and the end direction.
\<close>

lemma restrictCornerRadius_wide:
  "\<not> arc < pi \<Longrightarrow>
     restrictCornerRadius radius innerRadius startAngle endAngle arc ocrMax icrMax
       = (ocrMax, icrMax)"
  by (simp add: restrictCornerRadius_def Let_def)

lemma restrictCornerRadius_changed:
  assumes "fst (restrictCornerRadius R r s e arc ocrMax icrMax) \<noteq> ocrMax"
  shows "(num_gt ocrMax (Some eps) \<or> num_gt icrMax (Some eps)) \<and> arc < pi \<and>
         intersect (R * cos s) (R * sin s) (r * cos s) (r * sin s)
                   (R * cos e) (R * sin e) (r * cos e) (r * sin e) \<noteq> None"
  using assms by (auto simp: restrictCornerRadius_def Let_def split: if_splits option.splits)

lemma intersect_rays:
  assumes "intersect (R * cos s) (R * sin s) (r * cos s) (r * sin s)
                     (R * cos e) (R * sin e) (r * cos e) (r * sin e) = Some it"
  shows "it = (0, 0)"
proof -
  define D where "D = sin e * cos s - cos e * sin s"
  define t where "t = (r * sin e - R * sin e) * (r * cos s - R * cos s)
                    - (r * cos e - R * cos e) * (r * sin s - R * sin s)"
  define nu where "nu = (r * cos e - R * cos e) * (R * sin s - R * sin e)
                        - (r * sin e - R * sin e) * (R * cos s - R * cos e)"
  have nz: "\<not> t * t < eps" and it: "it = (R * cos s + nu / t * (r * cos s - R * cos s),
                                          R * sin s + nu / t * (r * sin s - R * sin s))"
    using assms unfolding intersect_def Let_def t_def nu_def
    by (auto split: if_splits)
  have t0: "t \<noteq> 0" using nz by (auto simp: eps_def)
  have "nu * (r - R) = - R * t"
    unfolding nu_def t_def by (simp add: algebra_simps)
  then have k: "nu / t * (r - R) = - R"
    using t0 by (simp add: field_simps)
  have x: "R * cos s + nu / t * (r * cos s - R * cos s) = 0"
  proof -
    have "nu / t * (r * cos s - R * cos s) = (nu / t * (r - R)) * cos s"
      by (simp only: left_diff_distrib mult.assoc)
    then show ?thesis unfolding k by simp
  qed
  have y: "R * sin s + nu / t * (r * sin s - R * sin s) = 0"
  proof -
    have "nu / t * (r * sin s - R * sin s) = (nu / t * (r - R)) * sin s"
      by (simp only: left_diff_distrib mult.assoc)
    then show ?thesis unfolding k by simp
  qed
  show ?thesis using it x y by simp
qed

lemma restrictCornerRadius_rays:
  assumes c: "num_gt ocrMax (Some eps) \<or> num_gt icrMax (Some eps)"
    and a: "arc < pi"
    and i: "intersect (R * cos s) (R * sin s) (r * cos s) (r * sin s)
                      (R * cos e) (R * sin e) (r * cos e) (r * sin e) \<noteq> None"
    and R: "0 < R"
  shows "restrictCornerRadius R r s e arc ocrMax icrMax
           = (mathMin ocrMax (Some (R / (1 / sin (arccos (cos (e - s)) / 2) + 1))),
              mathMin icrMax (Some (r / (1 / sin (arccos (cos (e - s)) / 2) - 1))))"
proof -
  from i obtain it where it: "intersect (R * cos s) (R * sin s) (r * cos s) (r * sin s)
                      (R * cos e) (R * sin e) (r * cos e) (r * sin e) = Some it" by auto
  from intersect_rays[OF it] have it0: "it = (0, 0)" .
  have n: "sqrt (R * cos s * (R * cos s) + R * sin s * (R * sin s)) = R" for s
  proof -
    have "R * cos s * (R * cos s) + R * sin s * (R * sin s) = R * R * (cos s * cos s + sin s * sin s)"
      by (simp only: distrib_left mult.assoc mult.left_commute)
    also have "\<dots> = R\<^sup>2" by (simp add: power2_eq_square)
    finally show ?thesis using R by simp
  qed
  have d: "R * cos s * (R * cos e) + R * sin s * (R * sin e) = R * R * cos (e - s)"
    by (simp add: cos_diff algebra_simps)
  have q: "(R * cos s * (R * cos e) + R * sin s * (R * sin e))
             / (sqrt (R * cos s * (R * cos s) + R * sin s * (R * sin s))
                * sqrt (R * cos e * (R * cos e) + R * sin e * (R * sin e)))
           = cos (e - s)"
    unfolding n d using R by simp
  show ?thesis
    using c a unfolding restrictCornerRadius_def Let_def it it0
    by (simp add: q)
qed

lemma intersect_rays_det:
  assumes "intersect (R * cos s) (R * sin s) (r * cos s) (r * sin s)
                     (R * cos e) (R * sin e) (r * cos e) (r * sin e) \<noteq> None"
    and H: "cos arc = cos (e - s)" and a: "0 \<le> arc" "arc \<le> pi"
  shows "\<not> ((R - r)\<^sup>2 * sin arc) * ((R - r)\<^sup>2 * sin arc) < eps"
proof -
  define t where "t = (r * sin e - R * sin e) * (r * cos s - R * cos s)
                    - (r * cos e - R * cos e) * (r * sin s - R * sin s)"
  have nz: "\<not> t * t < eps"
    using assms(1) unfolding intersect_def Let_def t_def by (auto split: if_splits)
  have tt: "t = (R - r)\<^sup>2 * sin (e - s)"
    unfolding t_def by (simp add: sin_diff power2_eq_square algebra_simps)
  have sq: "(sin (e - s))\<^sup>2 = (sin arc)\<^sup>2"
    unfolding sin_squared_eq H by simp
  have "t * t = ((R - r)\<^sup>2 * sin (e - s))\<^sup>2"
    unfolding tt by (simp only: power2_eq_square)
  also have "\<dots> = ((R - r)\<^sup>2)\<^sup>2 * (sin (e - s))\<^sup>2"
    by (rule power_mult_distrib)
  also have "\<dots> = ((R - r)\<^sup>2)\<^sup>2 * (sin arc)\<^sup>2"
    unfolding sq ..
  also have "\<dots> = ((R - r)\<^sup>2 * sin arc)\<^sup>2"
    by (rule power_mult_distrib[symmetric])
  finally have "t * t = ((R - r)\<^sup>2 * sin arc) * ((R - r)\<^sup>2 * sin arc)"
    by (simp only: power2_eq_square)
  then show ?thesis using nz by simp
qed

text \<open>
  A reduced outer corner radius exceeds the tolerance when the sweep does: the tests of
  lines 28 and 240 together bound \<open>radius * sin (arc / 2)\<close> from below.
\<close>

lemma sin_lower_bound:
  fixes x :: real
  shows "x - x\<^sup>2 / 2 \<le> sin x"
proof -
  have "\<bar>sin x - (\<Sum>m<2. sin_coeff m * x ^ m)\<bar> \<le> inverse (fact 2) * \<bar>x\<bar> ^ 2"
    by (rule Maclaurin_sin_bound)
  moreover have "(\<Sum>m<2. sin_coeff m * x ^ m) = x"
    by (simp add: sin_coeff_def lessThan_Suc numeral_2_eq_2)
  ultimately have "\<bar>sin x - x\<bar> \<le> x\<^sup>2 / 2" by (simp add: fact_numeral)
  then show ?thesis by linarith
qed

lemma merged_radius_exceeds_eps:
  fixes R r arc :: real
  assumes r: "0 \<le> r" "r \<le> R"
    and arc: "eps < arc" "arc < pi"
    and t: "\<not> ((R - r)\<^sup>2 * sin arc) * ((R - r)\<^sup>2 * sin arc) < eps"
  shows "eps < R / (1 / sin (arc / 2) + 1)"
proof -
  define \<sigma> where "\<sigma> = sin (arc / 2)"
  define \<kappa> where "\<kappa> = cos (arc / 2)"
  define u where "u = (R - r)\<^sup>2 * sin arc"
  have a0: "0 < arc" using arc(1) by (simp add: eps_def)
  have a2: "1 / 20000 \<le> arc / 2" using arc(1) by (simp add: eps_def)
  have pos: "0 < \<sigma>" unfolding \<sigma>_def using a0 arc(2) by (intro sin_gt_zero) simp_all
  have le1: "\<sigma> \<le> 1" unfolding \<sigma>_def by simp
  have "sin (1 / 20000 :: real) \<le> sin (arc / 2)"
    using a2 arc(2) by (intro sin_monotone_2pi_le) simp_all
  moreover have "(1 / 20000 :: real) - (1 / 20000)\<^sup>2 / 2 \<le> sin (1 / 20000)"
    by (rule sin_lower_bound)
  moreover have "(4 / 100000 :: real) \<le> 1 / 20000 - (1 / 20000)\<^sup>2 / 2"
    by (simp add: power2_eq_square)
  ultimately have low: "4 / 100000 \<le> \<sigma>" unfolding \<sigma>_def by linarith
  have k: "0 \<le> \<kappa>" "\<kappa> \<le> 1"
    unfolding \<kappa>_def using a0 arc(2) by (simp_all add: cos_ge_zero)
  have "sin arc = sin (2 * (arc / 2))" by simp
  also have "\<dots> = 2 * \<sigma> * \<kappa>" unfolding \<sigma>_def \<kappa>_def by (rule sin_double)
  finally have sa: "sin arc = 2 * \<sigma> * \<kappa>" .
  have s0: "0 \<le> sin arc" unfolding sa using pos k by simp
  have "\<sigma> * \<kappa> \<le> \<sigma> * 1" using pos k by (intro mult_left_mono) simp_all
  then have s2: "sin arc \<le> 2 * \<sigma>" unfolding sa by simp
  have u0: "0 \<le> u" unfolding u_def using s0 by simp
  have u1: "1 / 100 \<le> u"
  proof (rule ccontr)
    assume "\<not> 1 / 100 \<le> u"
    then have "u < 1 / 100" by simp
    then have "u * u < (1 / 100) * (1 / 100)" using u0 by (intro mult_strict_mono) simp_all
    then show False using t unfolding u_def eps_def by simp
  qed
  have "(R - r)\<^sup>2 \<le> R\<^sup>2" using r by (intro power_mono) simp_all
  then have "u \<le> R\<^sup>2 * sin arc" unfolding u_def using s0 by (intro mult_right_mono)
  also have "\<dots> \<le> R\<^sup>2 * (2 * \<sigma>)" using s2 by (intro mult_left_mono) simp_all
  finally have "1 / 100 \<le> R\<^sup>2 * (2 * \<sigma>)" using u1 by simp
  then have big: "1 / 200 \<le> R * (R * \<sigma>)" by (simp add: power2_eq_square)
  have R0: "0 \<le> R" using r by simp
  have x: "2 / 10000 < R * \<sigma>"
  proof (cases "R \<le> 20")
    case True
    show ?thesis
    proof (rule ccontr)
      assume "\<not> 2 / 10000 < R * \<sigma>"
      then have "R * \<sigma> \<le> 2 / 10000" by simp
      moreover have "0 \<le> R * \<sigma>" using R0 pos by simp
      ultimately have "R * (R * \<sigma>) \<le> 20 * (2 / 10000)"
        using True R0 by (intro mult_mono) simp_all
      then show False using big by simp
    qed
  next
    case False
    then have "20 * (4 / 100000) \<le> R * \<sigma>" using low by (intro mult_mono) simp_all
    then show ?thesis by simp
  qed
  have "eps * (1 + \<sigma>) \<le> 2 / 10000" using le1 by (simp add: eps_def)
  then have "eps * (1 + \<sigma>) < R * \<sigma>" using x by simp
  then have "eps < R * \<sigma> / (1 + \<sigma>)" using pos by (simp add: pos_less_divide_eq)
  moreover have "R / (1 / \<sigma> + 1) = R * \<sigma> / (1 + \<sigma>)" using pos by (simp add: field_simps)
  ultimately show ?thesis unfolding \<sigma>_def by simp
qed

text \<open>
  When \<open>intersect\<close> returns a point for the two radial edges, the outer radius is at
  least \<open>0.1\<close>, far above the tolerance.
\<close>

lemma restricted_radius_large:
  fixes R r arc :: real
  assumes r: "0 \<le> r" "r \<le> R"
    and arc: "0 \<le> arc" "arc \<le> pi"
    and t: "\<not> ((R - r)\<^sup>2 * sin arc) * ((R - r)\<^sup>2 * sin arc) < eps"
  shows "1 / 10 \<le> R"
proof -
  define u where "u = (R - r)\<^sup>2 * sin arc"
  have s0: "0 \<le> sin arc" using arc by (rule sin_ge_zero)
  have u0: "0 \<le> u" unfolding u_def using s0 by simp
  have u1: "1 / 100 \<le> u"
  proof (rule ccontr)
    assume "\<not> 1 / 100 \<le> u"
    then have "u < 1 / 100" by simp
    then have "u * u < (1 / 100) * (1 / 100)" using u0 by (intro mult_strict_mono) simp_all
    then show False using t unfolding u_def eps_def by simp
  qed
  have "u \<le> (R - r)\<^sup>2 * 1" unfolding u_def by (intro mult_left_mono) simp_all
  also have "(R - r)\<^sup>2 \<le> R\<^sup>2" using r by (intro power_mono) simp_all
  finally have big: "1 / 100 \<le> R * R" using u1 by (simp add: power2_eq_square)
  have R0: "0 \<le> R" using r by simp
  show ?thesis
  proof (rule ccontr)
    assume "\<not> 1 / 10 \<le> R"
    then have "R < 1 / 10" by simp
    then have "R * R < (1 / 10) * (1 / 10)" using R0 by (intro mult_strict_mono) simp_all
    then show False using big by simp
  qed
qed

subsection \<open>The outer ring with corners\<close>

lemma outerRing_corners:
  assumes "arc > eps" "num_gt limitedOcrMax (Some eps)" "\<not> num_lt limitedOcrMax ocrMax"
  shows "\<exists>x y c d a0 a1 rest.
     outerRing cx cy radius innerRadius startAngle endAngle clockwise arc
         ocrStart ocrEnd ocrMax limitedOcrMax
       = MoveTo x y # Arc c d (num (mathMin ocrStart limitedOcrMax)) a0 a1 (\<not> clockwise) # rest"
  using assms by (simp add: outerRing_def Let_def)

lemma half_turn_first_fillet:
  assumes er: "effectiveRadii (shape_r sh) (shape_r0 sh) = Some (radius, innerRadius)"
    and cr: "normalizeCornerRadius (shape_cornerRadius sh) (shape_r0 sh) (shape_r sh)
               = [Some i1, Some i2, Some o1, Some o1]"
    and "radius > eps"
    and sw: "sweep nrm (shape_startAngle sh) (shape_endAngle sh) (shape_clockwise sh) = pi"
    and "o1 > eps" "o1 \<le> \<bar>radius - innerRadius\<bar> / 2"
  shows "\<exists>x y c d a0 a1 rest.
           buildPath nrm sh = MoveTo x y # Arc c d o1 a0 a1 (\<not> shape_clockwise sh) # rest"
proof -
  have p: "2 \<le> pi" by (rule pi_ge_two)
  have a: "pi > eps" "\<not> pi > PI2 - eps" using p by (simp_all add: eps_def PI2_def)
  have m: "min (\<bar>radius - innerRadius\<bar> / 2) o1 = o1"
    using assms(6) by simp
  have g: "num_gt (Some o1) (Some eps)" "\<not> num_lt (Some o1) (Some o1)"
    using assms(5) by simp_all
  obtain x y c d a0 a1 rest where
    "outerRing (shape_cx sh) (shape_cy sh) radius innerRadius (shape_startAngle sh) (shape_endAngle sh)
        (shape_clockwise sh) pi (Some o1) (Some o1) (Some o1) (Some o1)
       = MoveTo x y # Arc c d (num (mathMin (Some o1) (Some o1))) a0 a1 (\<not> shape_clockwise sh) # rest"
    using outerRing_corners[OF a(1) g, of "shape_cx sh" "shape_cy sh" radius innerRadius
        "shape_startAngle sh" "shape_endAngle sh" "shape_clockwise sh" "Some o1" "Some o1"]
    by auto
  then show ?thesis
    using buildPath_body[OF er cr[symmetric], of nrm] assms(3) a
    by (simp add: sw sectorPath_unfold restrictCornerRadius_wide m)
qed

text \<open>
  The merged outer fillet under the two tests of lines 240 and 244, for any normaliser.
\<close>

lemma merged_outer_fillet_guarded:
  assumes er: "effectiveRadii (shape_r sh) (shape_r0 sh) = Some (radius, innerRadius)"
    and cr: "normalizeCornerRadius (shape_cornerRadius sh) (shape_r0 sh) (shape_r sh)
               = [icrStart, icrEnd, ocrStart, ocrEnd]"
    and arc: "arc = sweep nrm (shape_startAngle sh) (shape_endAngle sh) (shape_clockwise sh)"
    and sector: "radius > eps" "\<not> arc > PI2 - eps"
    and ocrMax: "ocrMax = mathMax (mathMin (Some (\<bar>radius - innerRadius\<bar> / 2)) ocrStart)
                                  (mathMin (Some (\<bar>radius - innerRadius\<bar> / 2)) ocrEnd)"
    and icrMax: "icrMax = mathMax (mathMin (Some (\<bar>radius - innerRadius\<bar> / 2)) icrStart)
                                  (mathMin (Some (\<bar>radius - innerRadius\<bar> / 2)) icrEnd)"
    and lim: "restrictCornerRadius radius innerRadius (shape_startAngle sh) (shape_endAngle sh)
                arc ocrMax icrMax
               = (limitedOcrMax, limitedIcrMax)"
    and merged: "num_lt limitedOcrMax ocrMax"
    and guards: "arc > eps" "num_gt limitedOcrMax (Some eps)"
  shows "\<exists>x y c d a0 a1.
           buildPath nrm sh =
             MoveTo x y # Arc c d (num limitedOcrMax) a0 a1 (\<not> shape_clockwise sh) #
             innerRing (shape_cx sh) (shape_cy sh) radius innerRadius (shape_startAngle sh)
               (shape_endAngle sh) (shape_clockwise sh) arc icrStart icrEnd icrMax limitedIcrMax
             @ [ClosePath]"
proof -
  have "\<exists>x y c d a0 a1.
     outerRing (shape_cx sh) (shape_cy sh) radius innerRadius (shape_startAngle sh)
       (shape_endAngle sh) (shape_clockwise sh) arc ocrStart ocrEnd ocrMax limitedOcrMax
       = [MoveTo x y, Arc c d (num limitedOcrMax) a0 a1 (\<not> shape_clockwise sh)]"
    using merged guards by (simp add: outerRing_def Let_def)
  then show ?thesis
    using buildPath_body[OF er cr[symmetric], of nrm] sector lim
    by (auto simp: arc[symmetric] sectorPath_unfold ocrMax[symmetric] icrMax[symmetric])
qed

subsection \<open>The angle normaliser\<close>

lemma normalizeArcAngles_canonical:
  assumes "0 \<le> a" "a < 2 * pi"
  shows "normalizeArcAngles (0, a) False = (0, a)"
  using assms by (simp add: normalizeArcAngles_def modPI2_def PI2_def Let_def)

lemma sweep_canonical:
  assumes "0 \<le> a" "a < 2 * pi"
  shows "sweep normalizeArcAngles 0 a True = a"
  using assms by (simp add: sweep_def normalizeArcAngles_canonical Let_def)

lemma sweep_full: "sweep normalizeArcAngles 0 (2 * pi) True = 2 * pi"
  by (simp add: sweep_def normalizeArcAngles_def modPI2_def PI2_def Let_def)

lemma modPI2_cos: "cos (x - modPI2 y) = cos (x - y)"
proof -
  have h: "x - modPI2 y = (x - y) + (2 * pi) * of_int \<lfloor>y / PI2\<rfloor>"
    by (simp add: modPI2_def PI2_def algebra_simps)
  have "cos ((x - y) + (2 * pi) * of_int \<lfloor>y / PI2\<rfloor>) = cos (x - y)"
    by (simp add: cos_add)
  then show ?thesis unfolding h .
qed

lemma normalizeArcAngles_sweep_cos:
  assumes "sweep normalizeArcAngles s e cw < pi"
  shows "cos (sweep normalizeArcAngles s e cw) = cos (e - s)"
proof (cases "s = e")
  case True
  then show ?thesis by (simp add: sweep_def)
next
  case False
  define s' where "s' = modPI2 s"
  define e' where "e' = e + (s' - s)"
  define e'' where "e'' = snd (normalizeArcAngles (s, e) (\<not> cw))"
  have d: "e' - s' = e - s" unfolding e'_def by simp
  have sw: "sweep normalizeArcAngles s e cw = \<bar>s' - e''\<bar>"
    using False unfolding sweep_def e''_def s'_def
    by (simp add: normalizeArcAngles_def Let_def)
  then have c: "cos (sweep normalizeArcAngles s e cw) = cos (e'' - s')"
    using cos_minus[of "e'' - s'"] by simp
  have m: "cos (PI2 - modPI2 x) = cos x" for x
  proof -
    have "cos (2 * pi - modPI2 x) = cos (2 * pi - x)" by (rule modPI2_cos)
    also have "\<dots> = cos x" by (rule cos_2pi_minus)
    finally show ?thesis by (simp only: PI2_def mult.commute[of pi 2])
  qed
  have "e'' = s' + PI2 \<or> e'' = s' - PI2 \<or> e'' = s' + (PI2 - modPI2 (s' - e'))
        \<or> e'' = s' - (PI2 - modPI2 (e' - s')) \<or> e'' = e'"
    unfolding e''_def s'_def e'_def by (simp add: normalizeArcAngles_def Let_def)
  then consider (full) "\<bar>s' - e''\<bar> = PI2"
    | (fwd) "e'' - s' = PI2 - modPI2 (s' - e')"
    | (bwd) "s' - e'' = PI2 - modPI2 (e' - s')"
    | (same) "e'' = e'"
    by (auto simp: PI2_def)
  then show ?thesis
  proof cases
    case full
    then show ?thesis using assms pi_ge_two unfolding sw by (simp add: PI2_def)
  next
    case fwd
    have "cos (e'' - s') = cos (s' - e')" unfolding fwd by (rule m)
    also have "\<dots> = cos (e' - s')" using cos_minus[of "e' - s'"] by simp
    finally show ?thesis unfolding c d .
  next
    case bwd
    have "cos (e'' - s') = cos (s' - e'')" using cos_minus[of "e'' - s'"] by simp
    also have "\<dots> = cos (e' - s')" unfolding bwd by (rule m)
    finally show ?thesis unfolding c d .
  next
    case same
    then show ?thesis unfolding c using d by simp
  qed
qed

subsection \<open>Evaluated examples\<close>

text \<open>
  A half-turn annular sector with sharp corners, an annular sector whose sweep is exactly
  \<open>2\<pi> - 1e-4\<close>, a quarter-turn circular sector with an over-requested corner radius,
  and a circular sector of radius \<open>1000\<close> whose sweep \<open>5e-5\<close> is below the tolerance.
\<close>

lemma buildPath_half_sector:
  "buildPath normalizeArcAngles
     \<lparr>shape_cx = 0, shape_cy = 0, shape_startAngle = 0, shape_endAngle = pi,
      shape_clockwise = True, shape_r = 10, shape_r0 = 4, shape_cornerRadius = Scalar (Plain 0)\<rparr>
   = [MoveTo 10 0, Arc 0 0 10 0 pi False, Arc 0 0 4 pi 0 True, ClosePath]"
proof -
  have p: "2 \<le> pi" by (rule pi_ge_two)
  have sw: "sweep normalizeArcAngles 0 pi True = pi"
    by (rule sweep_canonical) simp_all
  have er: "effectiveRadii 10 4 = Some (10, 4)" by (simp add: effectiveRadii_eq)
  have cr: "normalizeCornerRadius (Scalar (Plain 0)) 4 10 = [Some 0, Some 0, Some 0, Some 0]"
    by (simp add: normalizeCornerRadius_def upt_rec)
  have lim: "restrictCornerRadius 10 4 0 pi pi (Some 0) (Some 0) = (Some 0, Some 0)"
    by (simp add: restrictCornerRadius_def eps_def)
  have o: "outerRing 0 0 10 4 0 pi True pi (Some 0) (Some 0) (Some 0) (Some 0)
             = [MoveTo 10 0, Arc 0 0 10 0 pi False]"
    using p by (simp add: outerRing_def eps_def Let_def)
  have i: "innerRing 0 0 10 4 0 pi True pi (Some 0) (Some 0) (Some 0) (Some 0)
             = [Arc 0 0 4 pi 0 True]"
    using p by (simp add: innerRing_def eps_def Let_def)
  show ?thesis
    using p sw lim o i
    by (simp add: buildPath_def er cr sectorPath_unfold eps_def PI2_def Let_def)
qed

lemma buildPath_boundary_sector:
  "buildPath normalizeArcAngles
     \<lparr>shape_cx = 0, shape_cy = 0, shape_startAngle = 0, shape_endAngle = 2 * pi - 1 / 10000,
      shape_clockwise = True, shape_r = 10, shape_r0 = 4, shape_cornerRadius = Scalar (Plain 0)\<rparr>
   = [MoveTo 10 0, Arc 0 0 10 0 (2 * pi - 1 / 10000) False,
           Arc 0 0 4 (2 * pi - 1 / 10000) 0 True, ClosePath]"
proof -
  have p: "2 \<le> pi" by (rule pi_ge_two)
  have sw: "sweep normalizeArcAngles 0 (2 * pi - 1 / 10000) True = 2 * pi - 1 / 10000"
    using p by (intro sweep_canonical) simp_all
  have er: "effectiveRadii 10 4 = Some (10, 4)" by (simp add: effectiveRadii_eq)
  have cr: "normalizeCornerRadius (Scalar (Plain 0)) 4 10 = [Some 0, Some 0, Some 0, Some 0]"
    by (simp add: normalizeCornerRadius_def upt_rec)
  have lim: "restrictCornerRadius 10 4 0 (2 * pi - 1 / 10000) (2 * pi - 1 / 10000) (Some 0) (Some 0)
               = (Some 0, Some 0)"
    by (simp add: restrictCornerRadius_def eps_def)
  have o: "outerRing 0 0 10 4 0 (2 * pi - 1 / 10000) True (2 * pi - 1 / 10000)
             (Some 0) (Some 0) (Some 0) (Some 0)
      = [MoveTo 10 0, Arc 0 0 10 0 (2 * pi - 1 / 10000) False]"
    using p by (simp add: outerRing_def eps_def Let_def)
  have i: "innerRing 0 0 10 4 0 (2 * pi - 1 / 10000) True (2 * pi - 1 / 10000)
             (Some 0) (Some 0) (Some 0) (Some 0)
      = [Arc 0 0 4 (2 * pi - 1 / 10000) 0 True]"
    using p by (simp add: innerRing_def eps_def Let_def)
  show ?thesis
    using p sw lim o i
    by (simp add: buildPath_def er cr sectorPath_unfold eps_def PI2_def Let_def)
qed

lemma restrict_quarter:
  "restrictCornerRadius 100 0 0 (pi / 2) (pi / 2) (Some 50) (Some 50)
     = (Some (100 / (sqrt 2 + 1)), Some 0)"
proof -
  have i: "intersect 100 0 0 0 0 100 0 0 = Some (0, 0)"
    by (simp add: intersect_def eps_def Let_def)
  have s2: "1 < sqrt 2" by simp
  have "1 / (sqrt 2 / 2) = sqrt 2"
    by (simp add: real_div_sqrt)
  then have a: "1 / sin (pi / 4) = sqrt 2" by (simp add: sin_45)
  have "(100::real) / (s + 1) < 50" if "1 < s" for s :: real
    using that by (simp add: field_simps)
  from this[OF s2] have "(100::real) / (sqrt 2 + 1) < 50" .
  then have m: "min 50 (100 / (sqrt 2 + 1)) = 100 / (sqrt 2 + 1)" by simp
  show ?thesis
    using a m by (simp add: restrictCornerRadius_def Let_def eps_def i)
qed

lemma quarter_bounds:
  "eps < 100 / (sqrt 2 + 1) \<and> 100 / (sqrt 2 + 1) < 50"
proof -
  have b: "1 / 10000 < 100 / (s + 1) \<and> 100 / (s + 1) < 50" if "1 < s" "s < 2" for s :: real
    using that by (simp add: field_simps)
  have "1 < sqrt 2" by simp
  moreover have "sqrt 2 < 2" by (rule real_less_lsqrt) simp_all
  ultimately show ?thesis unfolding eps_def by (rule b)
qed

lemma buildPath_quarter:
  "\<exists>x y c d a0 a1.
     buildPath normalizeArcAngles
       \<lparr>shape_cx = 0, shape_cy = 0, shape_startAngle = 0, shape_endAngle = pi / 2,
        shape_clockwise = True, shape_r = 100, shape_r0 = 0, shape_cornerRadius = Scalar (Plain 50)\<rparr>
     = [MoveTo x y, Arc c d (100 / (sqrt 2 + 1)) a0 a1 False, LineTo 0 0, ClosePath]"
proof -
  have er: "effectiveRadii 100 0 = Some (100, 0)" by (simp add: effectiveRadii_eq)
  have cr: "normalizeCornerRadius (Scalar (Plain 50)) 0 100 = [Some 50, Some 50, Some 50, Some 50]"
    by (simp add: normalizeCornerRadius_def upt_rec)
  have sw: "sweep normalizeArcAngles 0 (pi / 2) True = pi / 2"
    by (rule sweep_canonical) simp_all
  have lo: "eps < 100 / (sqrt 2 + 1)" "100 / (sqrt 2 + 1) < 50"
    using quarter_bounds by simp_all
  have p: "2 \<le> pi" by (rule pi_ge_two)
  have a: "eps < pi / 2" "\<not> PI2 - eps < pi / 2" using p by (simp_all add: eps_def PI2_def)
  have o: "\<exists>x y c d a0 a1. outerRing 0 0 100 0 0 (pi / 2) True (pi / 2)
               (Some 50) (Some 50) (Some 50) (Some (100 / (sqrt 2 + 1)))
      = [MoveTo x y, Arc c d (100 / (sqrt 2 + 1)) a0 a1 False]"
    using a lo by (simp add: outerRing_def Let_def)
  have i: "innerRing 0 0 100 0 0 (pi / 2) True (pi / 2) (Some 50) (Some 50) (Some 50) (Some 0)
             = [LineTo 0 0]"
    by (simp add: innerRing_def Let_def eps_def)
  show ?thesis
    using o i a
    by (auto simp: buildPath_def er cr sw Let_def sectorPath_unfold restrict_quarter eps_def)
qed

lemma thin_sine: "1 / 100000000 \<le> sin (1 / 20000 :: real)"
proof -
  have "(1 / 20000 :: real) - (1 / 20000)\<^sup>2 / 2 \<le> sin (1 / 20000)"
    by (rule sin_lower_bound)
  moreover have "(1 / 100000000 :: real) \<le> 1 / 20000 - (1 / 20000)\<^sup>2 / 2"
    by (simp add: power2_eq_square)
  ultimately show ?thesis by linarith
qed

lemma intersect_thin:
  "intersect (1000 * cos 0) (1000 * sin 0) (0 * cos 0) (0 * sin 0)
             (1000 * cos (1 / 20000)) (1000 * sin (1 / 20000))
             (0 * cos (1 / 20000)) (0 * sin (1 / 20000)) \<noteq> None"
proof -
  have "(1 / 100 :: real) \<le> 1000000 * sin (1 / 20000)"
    using thin_sine by simp
  then have "(1 / 100 :: real) * (1 / 100) \<le> (1000000 * sin (1 / 20000)) * (1000000 * sin (1 / 20000))"
    by (intro mult_mono) simp_all
  then have "\<not> (1000000 * sin (1 / 20000)) * (1000000 * sin (1 / 20000)) < (1 / 10000 :: real)"
    by simp
  then show ?thesis
    by (simp add: intersect_def Let_def eps_def)
qed

lemma restrict_thin:
  "\<exists>l. fst (restrictCornerRadius 1000 0 0 (1 / 20000) (1 / 20000) (Some 50) (Some 50)) = Some l
       \<and> l < 50"
proof -
  have p: "2 \<le> pi" by (rule pi_ge_two)
  have ac: "arccos (cos (1 / 20000 - 0)) = 1 / 20000"
    using p by (simp add: arccos_cos)
  have f: "restrictCornerRadius 1000 0 0 (1 / 20000) (1 / 20000) (Some 50) (Some 50)
         = (mathMin (Some 50) (Some (1000 / (1 / sin (arccos (cos (1 / 20000 - 0)) / 2) + 1))),
            mathMin (Some 50) (Some (0 / (1 / sin (arccos (cos (1 / 20000 - 0)) / 2) - 1))))"
    using p by (intro restrictCornerRadius_rays intersect_thin) (simp_all add: eps_def)
  have pos: "0 < sin (1 / 40000 :: real)"
    using p by (intro sin_gt_zero) simp_all
  have le: "sin (1 / 40000 :: real) \<le> 1 / 40000"
    by (rule sin_x_le_x) simp
  have "(1000::real) / (1 / u + 1) < 50" if "0 < u" "u \<le> 1 / 40000" for u :: real
  proof -
    define v where "v = 1 / u"
    have "40000 \<le> v" using that unfolding v_def by (simp add: field_simps)
    then have "1000 < 50 * (v + 1)" and "0 < v + 1" by simp_all
    then have "1000 / (v + 1) < 50" by (simp only: pos_divide_less_eq)
    then show ?thesis unfolding v_def .
  qed
  from this[OF pos le] show ?thesis
    unfolding f ac by simp
qed

lemma buildPath_thin:
  "buildPath normalizeArcAngles
     \<lparr>shape_cx = 0, shape_cy = 0, shape_startAngle = 0, shape_endAngle = 1 / 20000,
      shape_clockwise = True, shape_r = 1000, shape_r0 = 0, shape_cornerRadius = Scalar (Plain 50)\<rparr>
   = [MoveTo 1000 0, LineTo 0 0, ClosePath]"
proof -
  have p: "2 \<le> pi" by (rule pi_ge_two)
  have sw: "sweep normalizeArcAngles 0 (1 / 20000) True = 1 / 20000"
    using p by (intro sweep_canonical) simp_all
  have er: "effectiveRadii 1000 0 = Some (1000, 0)" by (simp add: effectiveRadii_eq)
  have cr: "normalizeCornerRadius (Scalar (Plain 50)) 0 1000 = [Some 50, Some 50, Some 50, Some 50]"
    by (simp add: normalizeCornerRadius_def upt_rec)
  have o: "outerRing 0 0 1000 0 0 (1 / 20000) True (1 / 20000) (Some 50) (Some 50) om lo
             = [MoveTo 1000 0]" for om lo
    by (simp add: outerRing_def eps_def Let_def)
  have i: "innerRing 0 0 1000 0 0 (1 / 20000) True (1 / 20000) (Some 50) (Some 50) im li
             = [LineTo 0 0]" for im li
    by (simp add: innerRing_def eps_def Let_def)
  show ?thesis
    using p
    by (simp add: buildPath_def er cr sw sectorPath_unfold o i eps_def PI2_def Let_def)
qed

section \<open>The claims\<close>

text \<open>
  C1. Every \<open>arc\<close> command that \<open>buildPath\<close> emits is either an arc of the ring itself
  (centre \<open>(cx, cy)\<close>, radius the effective outer or inner radius) or a fillet arc, and a
  fillet arc has a radius of at most half the ring thickness: at most
  \<open>|radius - innerRadius| / 2\<close> for the effective radii, which is at most \<open>|r - r0| / 2\<close>.
  This holds for every sweep and every corner-radius request.
\<close>

theorem fillet_radius_clamped:
  assumes "Arc x y rad a0 a1 acw \<in> set (buildPath nrm sh)"
  shows "\<exists>radius innerRadius.
           effectiveRadii (shape_r sh) (shape_r0 sh) = Some (radius, innerRadius) \<and>
           ((x = shape_cx sh \<and> y = shape_cy sh \<and> (rad = radius \<or> rad = innerRadius)) \<or>
            (rad \<le> \<bar>radius - innerRadius\<bar> / 2 \<and> rad \<le> \<bar>shape_r sh - shape_r0 sh\<bar> / 2))"
proof (cases "effectiveRadii (shape_r sh) (shape_r0 sh)")
  case None
  then show ?thesis using assms buildPath_early[OF None, of nrm] by simp
next
  case (Some p)
  obtain radius innerRadius where p: "p = (radius, innerRadius)" by (cases p)
  note er = Some[unfolded p]
  have "(x = shape_cx sh \<and> y = shape_cy sh \<and> (rad = radius \<or> rad = innerRadius))
        \<or> rad \<le> \<bar>radius - innerRadius\<bar> / 2"
    using buildPath_body[OF er refl, of nrm] assms
    by (auto split: if_splits dest: fullRing_arcs sectorPath_arcs)
  then show ?thesis using er halfRd_le[OF er] by auto
qed

theorem fillet_radius_clamped_witness:
  "\<exists>x y c d a0 a1 rest.
     buildPath normalizeArcAngles
       \<lparr>shape_cx = 0, shape_cy = 0, shape_startAngle = 0, shape_endAngle = pi / 2,
        shape_clockwise = True, shape_r = 100, shape_r0 = 0, shape_cornerRadius = Scalar (Plain 50)\<rparr>
       = MoveTo x y # Arc c d (100 / (sqrt 2 + 1)) a0 a1 False # rest \<and>
     Arc c d (100 / (sqrt 2 + 1)) a0 a1 False
       \<in> set (MoveTo x y # Arc c d (100 / (sqrt 2 + 1)) a0 a1 False # rest) \<and>
     (\<exists>radius innerRadius.
        effectiveRadii 100 0 = Some (radius, innerRadius) \<and>
        ((c = 0 \<and> d = 0 \<and> (100 / (sqrt 2 + 1) = radius \<or> 100 / (sqrt 2 + 1) = innerRadius)) \<or>
         (100 / (sqrt 2 + 1) \<le> \<bar>radius - innerRadius\<bar> / 2 \<and>
          100 / (sqrt 2 + 1) \<le> \<bar>100 - 0\<bar> / 2)))"
proof -
  let ?sh = "\<lparr>shape_cx = 0, shape_cy = 0, shape_startAngle = 0, shape_endAngle = pi / 2,
        shape_clockwise = True, shape_r = 100, shape_r0 = 0, shape_cornerRadius = Scalar (Plain 50)\<rparr>"
  obtain x y c d a0 a1 where
    b: "buildPath normalizeArcAngles ?sh
          = [MoveTo x y, Arc c d (100 / (sqrt 2 + 1)) a0 a1 False, LineTo 0 0, ClosePath]"
    using buildPath_quarter by blast
  have m: "Arc c d (100 / (sqrt 2 + 1)) a0 a1 False \<in> set (buildPath normalizeArcAngles ?sh)"
    unfolding b by simp
  from fillet_radius_clamped[OF m] b show ?thesis
    by simp
qed

text \<open>
  C2, as amended. Whenever the tangent-line clamp has reduced the maximum outer corner
  radius (\<open>limitedOcrMax < ocrMax\<close>) and the sweep exceeds \<open>1e-4\<close> (the test of line
  240), the outer boundary is one \<open>MoveTo\<close> followed by one merged fillet \<open>Arc\<close> of
  radius \<open>limitedOcrMax\<close>; no separate outer-ring arc is emitted before the inner ring.
  The normaliser is taken to return a sweep that is the angle between the start and the
  end direction: \<open>cos arc = cos (endAngle - startAngle)\<close>. Under it a reduced
  \<open>limitedOcrMax\<close> puts the descriptor in the sector branch and passes the test of line
  244. The four resolved corner radii are those of any corner-radius request, undefined
  ones included; the comparison \<open>limitedOcrMax < ocrMax\<close> is the one of line 250 and
  holds for numbers only.
\<close>

theorem merged_outer_fillet:
  assumes er: "effectiveRadii (shape_r sh) (shape_r0 sh) = Some (radius, innerRadius)"
    and cr: "normalizeCornerRadius (shape_cornerRadius sh) (shape_r0 sh) (shape_r sh)
               = [icrStart, icrEnd, ocrStart, ocrEnd]"
    and arc: "arc = sweep nrm (shape_startAngle sh) (shape_endAngle sh) (shape_clockwise sh)"
    and nrm: "cos arc = cos (shape_endAngle sh - shape_startAngle sh)"
    and ocrMax: "ocrMax = mathMax (mathMin (Some (\<bar>radius - innerRadius\<bar> / 2)) ocrStart)
                                  (mathMin (Some (\<bar>radius - innerRadius\<bar> / 2)) ocrEnd)"
    and icrMax: "icrMax = mathMax (mathMin (Some (\<bar>radius - innerRadius\<bar> / 2)) icrStart)
                                  (mathMin (Some (\<bar>radius - innerRadius\<bar> / 2)) icrEnd)"
    and lim: "restrictCornerRadius radius innerRadius (shape_startAngle sh) (shape_endAngle sh)
                arc ocrMax icrMax
               = (limitedOcrMax, limitedIcrMax)"
    and merged: "num_lt limitedOcrMax ocrMax"
    and wide: "arc > eps"
  shows "\<exists>l x y c d a0 a1.
           limitedOcrMax = Some l \<and>
           buildPath nrm sh =
             MoveTo x y # Arc c d l a0 a1 (\<not> shape_clockwise sh) #
             innerRing (shape_cx sh) (shape_cy sh) radius innerRadius (shape_startAngle sh)
               (shape_endAngle sh) (shape_clockwise sh) arc icrStart icrEnd icrMax limitedIcrMax
             @ [ClosePath]"
proof -
  let ?s = "shape_startAngle sh" and ?e = "shape_endAngle sh"
  have rr: "0 \<le> innerRadius" "innerRadius \<le> radius" "0 < radius"
    using effectiveRadii_Some[OF er] by simp_all
  from merged obtain l om where l: "limitedOcrMax = Some l" and om: "ocrMax = Some om"
    and lom: "l < om"
    by (auto simp: num_lt_iff)
  have "fst (restrictCornerRadius radius innerRadius ?s ?e arc ocrMax icrMax) \<noteq> ocrMax"
    using lim l om lom by simp
  from restrictCornerRadius_changed[OF this]
  have c: "num_gt ocrMax (Some eps) \<or> num_gt icrMax (Some eps)" and lt: "arc < pi"
    and i: "intersect (radius * cos ?s) (radius * sin ?s) (innerRadius * cos ?s) (innerRadius * sin ?s)
                      (radius * cos ?e) (radius * sin ?e) (innerRadius * cos ?e) (innerRadius * sin ?e)
              \<noteq> None"
    by simp_all
  have a0: "0 \<le> arc" using wide by (simp add: eps_def)
  have ac: "arccos (cos (?e - ?s)) = arc"
    unfolding nrm[symmetric] using a0 lt by (simp add: arccos_cos)
  have "limitedOcrMax = mathMin ocrMax (Some (radius / (1 / sin (arc / 2) + 1)))"
    using lim unfolding restrictCornerRadius_rays[OF c lt i rr(3)] ac by simp
  then have "l = min om (radius / (1 / sin (arc / 2) + 1))"
    by (simp add: l om)
  then have lo: "l = radius / (1 / sin (arc / 2) + 1)"
    using lom by (simp add: min_def split: if_splits)
  have det: "\<not> ((radius - innerRadius)\<^sup>2 * sin arc) * ((radius - innerRadius)\<^sup>2 * sin arc) < eps"
    using intersect_rays_det[OF i nrm a0] lt by simp
  have "1 / 10 \<le> radius"
    using restricted_radius_large[OF rr(1,2) a0 _ det] lt by simp
  then have sector: "radius > eps" by (simp add: eps_def)
  have full: "\<not> arc > PI2 - eps"
    using lt pi_ge_two by (simp add: PI2_def eps_def)
  from merged_radius_exceeds_eps[OF rr(1,2) wide lt det]
  have "eps < l" unfolding lo .
  then have g: "num_gt limitedOcrMax (Some eps)" by (simp add: l)
  from merged_outer_fillet_guarded[OF er cr arc sector full ocrMax icrMax lim merged wide g]
  show ?thesis by (simp add: l)
qed

theorem merged_outer_fillet_witness:
  "effectiveRadii 100 0 = Some (100, 0) \<and>
   normalizeCornerRadius (Scalar (Plain 50)) 0 100 = [Some 50, Some 50, Some 50, Some 50] \<and>
   sweep normalizeArcAngles 0 (pi / 2) True = pi / 2 \<and>
   cos (sweep normalizeArcAngles 0 (pi / 2) True) = cos (pi / 2 - 0) \<and>
   mathMax (mathMin (Some (\<bar>100 - 0\<bar> / 2)) (Some 50)) (mathMin (Some (\<bar>100 - 0\<bar> / 2)) (Some 50))
     = Some 50 \<and>
   restrictCornerRadius 100 0 0 (pi / 2) (pi / 2) (Some 50) (Some 50)
     = (Some (100 / (sqrt 2 + 1)), Some 0) \<and>
   num_lt (Some (100 / (sqrt 2 + 1))) (Some 50) \<and> eps < pi / 2 \<and>
   (\<exists>x y c d a0 a1.
      buildPath normalizeArcAngles
        \<lparr>shape_cx = 0, shape_cy = 0, shape_startAngle = 0, shape_endAngle = pi / 2,
         shape_clockwise = True, shape_r = 100, shape_r0 = 0, shape_cornerRadius = Scalar (Plain 50)\<rparr>
      = MoveTo x y # Arc c d (100 / (sqrt 2 + 1)) a0 a1 False #
        innerRing 0 0 100 0 0 (pi / 2) True (pi / 2) (Some 50) (Some 50) (Some 50) (Some 0)
        @ [ClosePath])"
proof -
  let ?sh = "\<lparr>shape_cx = 0, shape_cy = 0, shape_startAngle = 0, shape_endAngle = pi / 2,
         shape_clockwise = True, shape_r = 100, shape_r0 = 0, shape_cornerRadius = Scalar (Plain 50)\<rparr>"
  have er: "effectiveRadii (shape_r ?sh) (shape_r0 ?sh) = Some (100, 0)"
    by (simp add: effectiveRadii_eq)
  have cr: "normalizeCornerRadius (shape_cornerRadius ?sh) (shape_r0 ?sh) (shape_r ?sh)
              = [Some 50, Some 50, Some 50, Some 50]"
    by (simp add: normalizeCornerRadius_def upt_rec)
  have sw: "sweep normalizeArcAngles 0 (pi / 2) True = pi / 2"
    by (rule sweep_canonical) simp_all
  have arc: "pi / 2 = sweep normalizeArcAngles (shape_startAngle ?sh) (shape_endAngle ?sh) (shape_clockwise ?sh)"
    by (simp add: sw)
  have "cos (sweep normalizeArcAngles 0 (pi / 2) True) = cos (pi / 2 - 0)"
    by (rule normalizeArcAngles_sweep_cos) (simp add: sw)
  then have nrm: "cos (pi / 2) = cos (shape_endAngle ?sh - shape_startAngle ?sh)"
    by (simp add: sw)
  have p: "2 \<le> pi" by (rule pi_ge_two)
  have a: "eps < pi / 2" "\<not> pi / 2 > PI2 - eps" "(100::real) > eps"
    using p by (simp_all add: eps_def PI2_def)
  have m: "Some 50 = mathMax (mathMin (Some (\<bar>100 - 0\<bar> / 2)) (Some 50))
                             (mathMin (Some (\<bar>100 - 0\<bar> / 2)) (Some 50))"
    by simp
  have lim: "restrictCornerRadius 100 0 (shape_startAngle ?sh) (shape_endAngle ?sh) (pi / 2)
               (Some 50) (Some 50)
               = (Some (100 / (sqrt 2 + 1)), Some 0)"
    by (simp add: restrict_quarter)
  have lo: "num_lt (Some (100 / (sqrt 2 + 1))) (Some 50)"
    using quarter_bounds by simp
  from merged_outer_fillet[OF er cr arc nrm m m lim lo a(1)]
  show ?thesis
    using er cr restrict_quarter lo a by (simp add: sw)
qed

text \<open>
  C2 as stated fails when the sweep is positive but at most \<open>1e-4\<close>: for radius \<open>1000\<close>,
  sweep \<open>5e-5\<close> and corner radius \<open>50\<close> the clamp reduces \<open>ocrMax = 50\<close>, yet line 240
  takes the collapsed branch and the outer boundary is a single \<open>MoveTo\<close> without any arc.
\<close>

theorem merged_outer_fillet_collapsed_counterexample:
  "sweep normalizeArcAngles 0 (1 / 20000) True = 1 / 20000 \<and>
   cos (sweep normalizeArcAngles 0 (1 / 20000) True) = cos (1 / 20000 - 0) \<and>
   mathMax (mathMin (Some (\<bar>1000 - 0\<bar> / 2)) (Some 50)) (mathMin (Some (\<bar>1000 - 0\<bar> / 2)) (Some 50))
     = Some 50 \<and>
   num_lt (fst (restrictCornerRadius 1000 0 0 (1 / 20000) (1 / 20000) (Some 50) (Some 50))) (Some 50) \<and>
   buildPath normalizeArcAngles
     \<lparr>shape_cx = 0, shape_cy = 0, shape_startAngle = 0, shape_endAngle = 1 / 20000,
      shape_clockwise = True, shape_r = 1000, shape_r0 = 0, shape_cornerRadius = Scalar (Plain 50)\<rparr>
   = [MoveTo 1000 0, LineTo 0 0, ClosePath]"
proof -
  have p: "2 \<le> pi" by (rule pi_ge_two)
  have sw: "sweep normalizeArcAngles 0 (1 / 20000) True = 1 / 20000"
    using p by (intro sweep_canonical) simp_all
  have "num_lt (fst (restrictCornerRadius 1000 0 0 (1 / 20000) (1 / 20000) (Some 50) (Some 50)))
          (Some 50)"
    using restrict_thin by auto
  then show ?thesis
    using buildPath_thin by (simp add: sw)
qed

text \<open>
  C3, as amended. With \<open>r = 0\<close> and \<open>r0 = 0\<close> \<open>buildPath\<close> returns at line 142 and
  emits nothing. The two commands \<open>MoveTo(cx, cy)\<close>, \<open>ClosePath\<close> and nothing else are
  what it emits when the larger of \<open>r\<close> and \<open>r0\<close> is positive and at most \<open>1e-4\<close>.
\<close>

theorem point_path:
  "(shape_r sh = 0 \<and> shape_r0 sh = 0 \<longrightarrow> buildPath nrm sh = []) \<and>
   (0 < max (shape_r sh) (shape_r0 sh) \<and> max (shape_r sh) (shape_r0 sh) \<le> eps \<longrightarrow>
      buildPath nrm sh = [MoveTo (shape_cx sh) (shape_cy sh), ClosePath])"
proof (intro conjI impI)
  assume "shape_r sh = 0 \<and> shape_r0 sh = 0"
  then show "buildPath nrm sh = []"
    by (simp add: buildPath_def effectiveRadii_def)
next
  assume a: "0 < max (shape_r sh) (shape_r0 sh) \<and> max (shape_r sh) (shape_r0 sh) \<le> eps"
  define radius where "radius = max (max (shape_r sh) 0) (max (shape_r0 sh) 0)"
  define innerRadius where "innerRadius = min (max (shape_r sh) 0) (max (shape_r0 sh) 0)"
  have er: "effectiveRadii (shape_r sh) (shape_r0 sh) = Some (radius, innerRadius)"
    using a unfolding effectiveRadii_eq radius_def innerRadius_def by auto
  have le: "\<not> radius > eps"
    using a unfolding radius_def by auto
  show "buildPath nrm sh = [MoveTo (shape_cx sh) (shape_cy sh), ClosePath]"
    using buildPath_body[OF er refl, of nrm] le by simp
qed

theorem point_path_witness:
  "buildPath normalizeArcAngles
     \<lparr>shape_cx = 3, shape_cy = 7, shape_startAngle = 0, shape_endAngle = 1,
      shape_clockwise = True, shape_r = 0, shape_r0 = 0, shape_cornerRadius = Scalar (Plain 2)\<rparr>
     = [] \<and>
   (0::real) < max (1 / 20000) 0 \<and> max (1 / 20000) 0 \<le> eps \<and>
   buildPath normalizeArcAngles
     \<lparr>shape_cx = 3, shape_cy = 7, shape_startAngle = 0, shape_endAngle = 1,
      shape_clockwise = True, shape_r = 1 / 20000, shape_r0 = 0, shape_cornerRadius = Scalar (Plain 2)\<rparr>
     = [MoveTo 3 7, ClosePath]"
  using point_path[of "\<lparr>shape_cx = 3, shape_cy = 7, shape_startAngle = 0, shape_endAngle = 1,
      shape_clockwise = True, shape_r = 0, shape_r0 = 0, shape_cornerRadius = Scalar (Plain 2)\<rparr>"
      normalizeArcAngles]
    point_path[of "\<lparr>shape_cx = 3, shape_cy = 7, shape_startAngle = 0, shape_endAngle = 1,
      shape_clockwise = True, shape_r = 1 / 20000, shape_r0 = 0, shape_cornerRadius = Scalar (Plain 2)\<rparr>"
      normalizeArcAngles]
  by (simp add: eps_def)

text \<open>
  C3 as stated fails: with \<open>r = 0\<close> and \<open>r0 = 0\<close> the output is empty, not
  \<open>MoveTo(cx, cy)\<close>, \<open>ClosePath\<close>.
\<close>

theorem zero_radii_counterexample:
  "buildPath normalizeArcAngles
     \<lparr>shape_cx = 0, shape_cy = 0, shape_startAngle = 0, shape_endAngle = 1,
      shape_clockwise = True, shape_r = 0, shape_r0 = 0, shape_cornerRadius = Scalar (Plain 0)\<rparr>
     = [] \<and>
   buildPath normalizeArcAngles
     \<lparr>shape_cx = 0, shape_cy = 0, shape_startAngle = 0, shape_endAngle = 1,
      shape_clockwise = True, shape_r = 0, shape_r0 = 0, shape_cornerRadius = Scalar (Plain 0)\<rparr>
     \<noteq> [MoveTo 0 0, ClosePath]"
  by (simp add: buildPath_def effectiveRadii_def)

text \<open>
  C4, as amended. For every sector descriptor in which both \<open>r\<close> and \<open>r0\<close> are at most
  \<open>0\<close>, \<open>buildPath\<close> emits no path commands at all.
\<close>

theorem nonpositive_radii_emit_nothing:
  "shape_r sh \<le> 0 \<Longrightarrow> shape_r0 sh \<le> 0 \<Longrightarrow> buildPath nrm sh = []"
  by (simp add: buildPath_def effectiveRadii_def)

theorem nonpositive_radii_emit_nothing_witness:
  "(- 1::real) \<le> 0 \<and> (0::real) \<le> 0 \<and>
   buildPath normalizeArcAngles
     \<lparr>shape_cx = 3, shape_cy = 7, shape_startAngle = 0, shape_endAngle = 1,
      shape_clockwise = False, shape_r = - 1, shape_r0 = 0, shape_cornerRadius = Array [Plain 2]\<rparr>
     = []"
  using nonpositive_radii_emit_nothing[of
      "\<lparr>shape_cx = 3, shape_cy = 7, shape_startAngle = 0, shape_endAngle = 1,
        shape_clockwise = False, shape_r = - 1, shape_r0 = 0, shape_cornerRadius = Array [Plain 2]\<rparr>"
      normalizeArcAngles]
  by simp

text \<open>
  C4 as stated fails: with \<open>r = 5e-5\<close> and \<open>r0 = 0\<close>, both at most \<open>1e-4\<close>, two
  commands are emitted.
\<close>

theorem small_radii_counterexample:
  "(1 / 20000::real) \<le> 1 / 10000 \<and> (0::real) \<le> 1 / 10000 \<and>
   buildPath normalizeArcAngles
     \<lparr>shape_cx = 0, shape_cy = 0, shape_startAngle = 0, shape_endAngle = 1,
      shape_clockwise = True, shape_r = 1 / 20000, shape_r0 = 0, shape_cornerRadius = Scalar (Plain 0)\<rparr>
     = [MoveTo 0 0, ClosePath]"
  by (simp add: buildPath_def effectiveRadii_def eps_def Let_def)

text \<open>
  C5, as amended. Swapping \<open>r\<close> and \<open>r0\<close> leaves the effective outer and inner radius
  unchanged for every descriptor, and leaves the emitted command sequence unchanged
  whenever the corner-radius specification has no percentage entry. (A percentage is
  resolved at line 173 against the \<open>r0\<close> and \<open>r\<close> of the descriptor as given.)
\<close>

theorem swap_radii:
  "effectiveRadii (shape_r0 sh) (shape_r sh) = effectiveRadii (shape_r sh) (shape_r0 sh) \<and>
   (noPercent (shape_cornerRadius sh) \<longrightarrow>
      buildPath nrm (sh\<lparr>shape_r := shape_r0 sh, shape_r0 := shape_r sh\<rparr>) = buildPath nrm sh)"
proof (intro conjI impI)
  show "effectiveRadii (shape_r0 sh) (shape_r sh) = effectiveRadii (shape_r sh) (shape_r0 sh)"
    by (rule effectiveRadii_swap)
next
  assume "noPercent (shape_cornerRadius sh)"
  then have "normalizeCornerRadius (shape_cornerRadius sh) (shape_r sh) (shape_r0 sh)
           = normalizeCornerRadius (shape_cornerRadius sh) (shape_r0 sh) (shape_r sh)"
    by (rule normalizeCornerRadius_noPercent)
  then show "buildPath nrm (sh\<lparr>shape_r := shape_r0 sh, shape_r0 := shape_r sh\<rparr>) = buildPath nrm sh"
    by (simp add: buildPath_def Let_def effectiveRadii_swap[of "shape_r0 sh" "shape_r sh"]
          split: option.splits prod.splits)
qed

theorem swap_radii_witness:
  "noPercent (Array [Plain 1, Plain 2]) \<and>
   buildPath normalizeArcAngles
     \<lparr>shape_cx = 0, shape_cy = 0, shape_startAngle = 0, shape_endAngle = pi,
      shape_clockwise = True, shape_r = 10, shape_r0 = 5, shape_cornerRadius = Array [Plain 1, Plain 2]\<rparr>
   = buildPath normalizeArcAngles
     \<lparr>shape_cx = 0, shape_cy = 0, shape_startAngle = 0, shape_endAngle = pi,
      shape_clockwise = True, shape_r = 5, shape_r0 = 10, shape_cornerRadius = Array [Plain 1, Plain 2]\<rparr>"
  using swap_radii[of "\<lparr>shape_cx = 0, shape_cy = 0, shape_startAngle = 0, shape_endAngle = pi,
      shape_clockwise = True, shape_r = 5, shape_r0 = 10, shape_cornerRadius = Array [Plain 1, Plain 2]\<rparr>"
      normalizeArcAngles]
  by simp

text \<open>
  C5 as stated fails for a percentage: with \<open>cornerRadius = "10%"\<close> the descriptor
  \<open>r = 5, r0 = 10\<close> resolves to the outer corner radius \<open>0.5\<close> and \<open>r = 10, r0 = 5\<close> to
  \<open>1\<close>, and the first fillet arcs of the two outputs have these different radii.
\<close>

theorem swap_radii_percent_counterexample:
  "normalizeCornerRadius (Scalar (Percent 10)) 10 5 = [Some 1, Some 1, Some (1 / 2), Some (1 / 2)] \<and>
   normalizeCornerRadius (Scalar (Percent 10)) 5 10 = [Some (1 / 2), Some (1 / 2), Some 1, Some 1] \<and>
   buildPath normalizeArcAngles
     \<lparr>shape_cx = 0, shape_cy = 0, shape_startAngle = 0, shape_endAngle = pi,
      shape_clockwise = True, shape_r = 5, shape_r0 = 10, shape_cornerRadius = Scalar (Percent 10)\<rparr>
   \<noteq> buildPath normalizeArcAngles
     \<lparr>shape_cx = 0, shape_cy = 0, shape_startAngle = 0, shape_endAngle = pi,
      shape_clockwise = True, shape_r = 10, shape_r0 = 5, shape_cornerRadius = Scalar (Percent 10)\<rparr>"
proof -
  let ?A = "\<lparr>shape_cx = 0, shape_cy = 0, shape_startAngle = 0, shape_endAngle = pi,
      shape_clockwise = True, shape_r = 5, shape_r0 = 10, shape_cornerRadius = Scalar (Percent 10)\<rparr>"
  let ?B = "\<lparr>shape_cx = 0, shape_cy = 0, shape_startAngle = 0, shape_endAngle = pi,
      shape_clockwise = True, shape_r = 10, shape_r0 = 5, shape_cornerRadius = Scalar (Percent 10)\<rparr>"
  have crA: "normalizeCornerRadius (Scalar (Percent 10)) 10 5
               = [Some 1, Some 1, Some (1 / 2), Some (1 / 2)]"
    by (simp add: normalizeCornerRadius_def upt_rec)
  have crB: "normalizeCornerRadius (Scalar (Percent 10)) 5 10
               = [Some (1 / 2), Some (1 / 2), Some 1, Some 1]"
    by (simp add: normalizeCornerRadius_def upt_rec)
  have erA: "effectiveRadii 5 10 = Some (10, 5)" by (simp add: effectiveRadii_eq)
  have erB: "effectiveRadii 10 5 = Some (10, 5)" by (simp add: effectiveRadii_eq)
  have sw: "sweep normalizeArcAngles 0 pi True = pi"
    by (rule sweep_canonical) simp_all
  obtain x y c d a0 a1 rest where
    sA: "buildPath normalizeArcAngles ?A = MoveTo x y # Arc c d (1 / 2) a0 a1 False # rest"
    using half_turn_first_fillet[of ?A 10 5 1 1 "1 / 2" normalizeArcAngles] erA crA sw
    by (auto simp: eps_def)
  obtain x' y' c' d' a0' a1' rest' where
    sB: "buildPath normalizeArcAngles ?B = MoveTo x' y' # Arc c' d' 1 a0' a1' False # rest'"
    using half_turn_first_fillet[of ?B 10 5 "1 / 2" "1 / 2" 1 normalizeArcAngles] erB crB sw
    by (auto simp: eps_def)
  have "buildPath normalizeArcAngles ?A \<noteq> buildPath normalizeArcAngles ?B"
    unfolding sA sB by simp
  then show ?thesis using crA crB by simp
qed

text \<open>
  C6. \<open>normalizeCornerRadius\<close> returns four radii in the order inner-start, inner-end,
  outer-start, outer-end, following the shorthand table: a scalar \<open>v\<close> gives
  \<open>[v, v, v, v]\<close>, \<open>[a]\<close> gives \<open>[a, a, 0, 0]\<close>, \<open>[a, b]\<close> gives \<open>[a, a, b, b]\<close>,
  \<open>[a, b, c]\<close> gives \<open>[a, b, c, c]\<close> and \<open>[a, b, c, d]\<close> gives \<open>[a, b, c, d]\<close>. Each
  entry is resolved against \<open>r0\<close> in the first two slots and against \<open>r\<close> in the last
  two: \<open>"N%"\<close> resolves to \<open>(N / 100) * base\<close> and any other entry to its number. In
  every row of the table all four radii are numbers (\<open>Some\<close>).
\<close>

theorem normalizeCornerRadius_table:
  "normalizeCornerRadius (Scalar v) r0 r
     = [Some (parsePercent v r0), Some (parsePercent v r0),
        Some (parsePercent v r), Some (parsePercent v r)] \<and>
   normalizeCornerRadius (Array [a]) r0 r
     = [Some (parsePercent a r0), Some (parsePercent a r0), Some 0, Some 0] \<and>
   normalizeCornerRadius (Array [a, b]) r0 r
     = [Some (parsePercent a r0), Some (parsePercent a r0),
        Some (parsePercent b r), Some (parsePercent b r)] \<and>
   normalizeCornerRadius (Array [a, b, c]) r0 r
     = [Some (parsePercent a r0), Some (parsePercent b r0),
        Some (parsePercent c r), Some (parsePercent c r)] \<and>
   normalizeCornerRadius (Array [a, b, c, d]) r0 r
     = [Some (parsePercent a r0), Some (parsePercent b r0),
        Some (parsePercent c r), Some (parsePercent d r)] \<and>
   parsePercent (Percent n) r0 = n / 100 * r0 \<and>
   parsePercent (Percent n) r = n / 100 * r \<and>
   parsePercent (Plain x) r0 = x \<and>
   parsePercent (Plain x) r = x"
  by (simp add: normalizeCornerRadius_def Let_def upt_rec)

text \<open>
  C7, as amended. When the computed sweep is strictly greater than \<open>2\<pi> - 1e-4\<close> and the
  effective outer radius exceeds \<open>1e-4\<close>, \<open>buildPath\<close> emits a \<open>MoveTo\<close> at the
  outer-radius point at \<open>startAngle\<close> followed by the full outer circle with
  \<open>anticlockwise = !clockwise\<close> and, exactly when the inner radius exceeds \<open>1e-4\<close>, a
  second \<open>MoveTo\<close> at the inner-radius point at \<open>endAngle\<close> followed by the full inner
  circle with \<open>anticlockwise = clockwise\<close>; there is no \<open>LineTo\<close>, and the path is closed.
  This holds for every corner-radius request, the empty array included.
\<close>

theorem full_ring_path:
  assumes "effectiveRadii (shape_r sh) (shape_r0 sh) = Some (radius, innerRadius)"
    and "radius > eps"
    and "sweep nrm (shape_startAngle sh) (shape_endAngle sh) (shape_clockwise sh) > 2 * pi - eps"
  shows "buildPath nrm sh =
     [MoveTo (shape_cx sh + radius * cos (shape_startAngle sh))
             (shape_cy sh + radius * sin (shape_startAngle sh)),
      Arc (shape_cx sh) (shape_cy sh) radius (shape_startAngle sh) (shape_endAngle sh)
          (\<not> shape_clockwise sh)]
     @ (if innerRadius > eps then
         [MoveTo (shape_cx sh + innerRadius * cos (shape_endAngle sh))
                 (shape_cy sh + innerRadius * sin (shape_endAngle sh)),
          Arc (shape_cx sh) (shape_cy sh) innerRadius (shape_endAngle sh) (shape_startAngle sh)
              (shape_clockwise sh)]
        else [])
     @ [ClosePath]"
  using buildPath_body[OF assms(1) refl, of nrm] assms(2,3)
  by (simp add: fullRing_def calcCircleCenter_def PI2_def mult.commute)

theorem full_ring_path_witness:
  "effectiveRadii 10 4 = Some (10, 4) \<and> (10::real) > eps \<and>
   sweep normalizeArcAngles 0 (2 * pi) True > 2 * pi - eps \<and>
   buildPath normalizeArcAngles
     \<lparr>shape_cx = 0, shape_cy = 0, shape_startAngle = 0, shape_endAngle = 2 * pi,
      shape_clockwise = True, shape_r = 10, shape_r0 = 4, shape_cornerRadius = Array []\<rparr>
   = [MoveTo 10 0, Arc 0 0 10 0 (2 * pi) False, MoveTo 4 0, Arc 0 0 4 (2 * pi) 0 True,
      ClosePath]"
proof -
  have er: "effectiveRadii 10 4 = Some (10, 4)" by (simp add: effectiveRadii_eq)
  have sw: "sweep normalizeArcAngles 0 (2 * pi) True > 2 * pi - eps"
    by (simp add: sweep_full eps_def)
  show ?thesis
    using full_ring_path[of
        "\<lparr>shape_cx = 0, shape_cy = 0, shape_startAngle = 0, shape_endAngle = 2 * pi,
          shape_clockwise = True, shape_r = 10, shape_r0 = 4, shape_cornerRadius = Array []\<rparr>"
        10 4 normalizeArcAngles] er sw
    by (simp add: eps_def)
qed

text \<open>
  C7 as stated fails on the boundary: at a sweep of exactly \<open>2\<pi> - 1e-4\<close> the test
  \<open>arc > PI2 - e\<close> of line 180 is false and the sector branch runs, which emits no
  second \<open>MoveTo\<close> although the inner radius \<open>4\<close> exceeds \<open>1e-4\<close>.
\<close>

theorem full_ring_boundary_counterexample:
  "sweep normalizeArcAngles 0 (2 * pi - 1 / 10000) True = 2 * pi - 1 / 10000 \<and>
   buildPath normalizeArcAngles
     \<lparr>shape_cx = 0, shape_cy = 0, shape_startAngle = 0, shape_endAngle = 2 * pi - 1 / 10000,
      shape_clockwise = True, shape_r = 10, shape_r0 = 4, shape_cornerRadius = Scalar (Plain 0)\<rparr>
   = [MoveTo 10 0, Arc 0 0 10 0 (2 * pi - 1 / 10000) False,
      Arc 0 0 4 (2 * pi - 1 / 10000) 0 True, ClosePath]"
proof -
  have p: "2 \<le> pi" by (rule pi_ge_two)
  have "sweep normalizeArcAngles 0 (2 * pi - 1 / 10000) True = 2 * pi - 1 / 10000"
    using p by (intro sweep_canonical) simp_all
  then show ?thesis using buildPath_boundary_sector by simp
qed

text \<open>
  C8. For every descriptor with \<open>startAngle = endAngle\<close> and an effective outer radius
  greater than \<open>1e-4\<close>, \<open>buildPath\<close> emits one \<open>MoveTo\<close> at the outer-radius point at the
  start angle, no \<open>Arc\<close> at all, and closes the path: the whole output is that
  \<open>MoveTo\<close>, the \<open>LineTo\<close> of line 275 and \<open>ClosePath\<close>. This holds for every
  corner-radius request, the empty array included.
\<close>

theorem zero_sweep_path:
  assumes "shape_startAngle sh = shape_endAngle sh"
    and "effectiveRadii (shape_r sh) (shape_r0 sh) = Some (radius, innerRadius)"
    and "radius > eps"
  shows "buildPath nrm sh =
     [MoveTo (shape_cx sh + radius * cos (shape_startAngle sh))
             (shape_cy sh + radius * sin (shape_startAngle sh)),
      LineTo (shape_cx sh + innerRadius * cos (shape_endAngle sh))
             (shape_cy sh + innerRadius * sin (shape_endAngle sh)),
      ClosePath]"
proof -
  have sw: "sweep nrm (shape_startAngle sh) (shape_endAngle sh) (shape_clockwise sh) = 0"
    using assms(1) by (simp add: sweep_def)
  have "0 < 2 * pi - eps" using pi_ge_two by (simp add: eps_def)
  then have nf: "\<not> 0 > PI2 - eps" by (simp add: PI2_def mult.commute)
  have pe: "\<not> (0::real) > eps" by (simp add: eps_def)
  show ?thesis
    using buildPath_body[OF assms(2) refl, of nrm] assms(3) nf pe
    by (simp add: sw sectorPath_unfold outerRing_def innerRing_def Let_def)
qed

theorem zero_sweep_path_witness:
  "effectiveRadii 4 10 = Some (10, 4) \<and> (10::real) > eps \<and>
   buildPath normalizeArcAngles
     \<lparr>shape_cx = 1, shape_cy = 2, shape_startAngle = pi, shape_endAngle = pi,
      shape_clockwise = False, shape_r = 4, shape_r0 = 10, shape_cornerRadius = Array []\<rparr>
   = [MoveTo (- 9) 2, LineTo (- 3) 2, ClosePath]"
proof -
  have er: "effectiveRadii 4 10 = Some (10, 4)" by (simp add: effectiveRadii_eq)
  show ?thesis
    using zero_sweep_path[of
        "\<lparr>shape_cx = 1, shape_cy = 2, shape_startAngle = pi, shape_endAngle = pi,
          shape_clockwise = False, shape_r = 4, shape_r0 = 10, shape_cornerRadius = Array []\<rparr>"
        10 4 normalizeArcAngles] er
    by (simp add: eps_def)
qed

text \<open>
  C9. \<open>intersect\<close> returns no result exactly when the square of the determinant of the
  two direction vectors is below \<open>1e-4\<close>. When it returns no result for the two radial
  edges of the sector, \<open>buildPath\<close> skips the restriction: \<open>limitedOcrMax = ocrMax\<close> and
  \<open>limitedIcrMax = icrMax\<close>, and the sector is drawn with these values.
\<close>

theorem intersect_none_skips_restriction:
  "(intersect x0 y0 x1 y1 x2 y2 x3 y3 = None \<longleftrightarrow>
      ((y3 - y2) * (x1 - x0) - (x3 - x2) * (y1 - y0))\<^sup>2 < 1 / 10000) \<and>
   (intersect (radius * cos startAngle) (radius * sin startAngle)
              (innerRadius * cos startAngle) (innerRadius * sin startAngle)
              (radius * cos endAngle) (radius * sin endAngle)
              (innerRadius * cos endAngle) (innerRadius * sin endAngle) = None \<longrightarrow>
      restrictCornerRadius radius innerRadius startAngle endAngle arc ocrMax icrMax
        = (ocrMax, icrMax) \<and>
      sectorPath cx cy radius innerRadius startAngle endAngle clockwise arc
          icrStart icrEnd ocrStart ocrEnd
        = outerRing cx cy radius innerRadius startAngle endAngle clockwise arc ocrStart ocrEnd
            (mathMax (mathMin (Some (\<bar>radius - innerRadius\<bar> / 2)) ocrStart)
                     (mathMin (Some (\<bar>radius - innerRadius\<bar> / 2)) ocrEnd))
            (mathMax (mathMin (Some (\<bar>radius - innerRadius\<bar> / 2)) ocrStart)
                     (mathMin (Some (\<bar>radius - innerRadius\<bar> / 2)) ocrEnd))
          @ innerRing cx cy radius innerRadius startAngle endAngle clockwise arc icrStart icrEnd
              (mathMax (mathMin (Some (\<bar>radius - innerRadius\<bar> / 2)) icrStart)
                       (mathMin (Some (\<bar>radius - innerRadius\<bar> / 2)) icrEnd))
              (mathMax (mathMin (Some (\<bar>radius - innerRadius\<bar> / 2)) icrStart)
                       (mathMin (Some (\<bar>radius - innerRadius\<bar> / 2)) icrEnd)))"
proof (intro conjI impI)
  show "intersect x0 y0 x1 y1 x2 y2 x3 y3 = None \<longleftrightarrow>
      ((y3 - y2) * (x1 - x0) - (x3 - x2) * (y1 - y0))\<^sup>2 < 1 / 10000"
    by (simp add: intersect_def Let_def eps_def power2_eq_square)
next
  assume n: "intersect (radius * cos startAngle) (radius * sin startAngle)
              (innerRadius * cos startAngle) (innerRadius * sin startAngle)
              (radius * cos endAngle) (radius * sin endAngle)
              (innerRadius * cos endAngle) (innerRadius * sin endAngle) = None"
  show r: "restrictCornerRadius radius innerRadius startAngle endAngle arc ocrMax icrMax
        = (ocrMax, icrMax)" for ocrMax icrMax
    using n by (simp add: restrictCornerRadius_def Let_def)
  show "sectorPath cx cy radius innerRadius startAngle endAngle clockwise arc
          icrStart icrEnd ocrStart ocrEnd
        = outerRing cx cy radius innerRadius startAngle endAngle clockwise arc ocrStart ocrEnd
            (mathMax (mathMin (Some (\<bar>radius - innerRadius\<bar> / 2)) ocrStart)
                     (mathMin (Some (\<bar>radius - innerRadius\<bar> / 2)) ocrEnd))
            (mathMax (mathMin (Some (\<bar>radius - innerRadius\<bar> / 2)) ocrStart)
                     (mathMin (Some (\<bar>radius - innerRadius\<bar> / 2)) ocrEnd))
          @ innerRing cx cy radius innerRadius startAngle endAngle clockwise arc icrStart icrEnd
              (mathMax (mathMin (Some (\<bar>radius - innerRadius\<bar> / 2)) icrStart)
                       (mathMin (Some (\<bar>radius - innerRadius\<bar> / 2)) icrEnd))
              (mathMax (mathMin (Some (\<bar>radius - innerRadius\<bar> / 2)) icrStart)
                       (mathMin (Some (\<bar>radius - innerRadius\<bar> / 2)) icrEnd))"
    unfolding sectorPath_unfold r by simp
qed

theorem intersect_none_skips_restriction_witness:
  "intersect (1 / 20 * cos 0) (1 / 20 * sin 0) (0 * cos 0) (0 * sin 0)
             (1 / 20 * cos (pi / 2)) (1 / 20 * sin (pi / 2)) (0 * cos (pi / 2)) (0 * sin (pi / 2))
     = None \<and>
   restrictCornerRadius (1 / 20) 0 0 (pi / 2) (pi / 2) (Some (1 / 40)) (Some (1 / 40))
     = (Some (1 / 40), Some (1 / 40))"
proof -
  have n: "intersect (1 / 20 * cos 0) (1 / 20 * sin 0) (0 * cos 0) (0 * sin 0)
             (1 / 20 * cos (pi / 2)) (1 / 20 * sin (pi / 2)) (0 * cos (pi / 2)) (0 * sin (pi / 2))
     = None"
    by (simp add: intersect_def Let_def eps_def)
  from intersect_none_skips_restriction[of 0 0 0 0 0 0 0 0 "1 / 20" 0 0 "pi / 2" "pi / 2"
      "Some (1 / 40)" "Some (1 / 40)" 0 0 True "Some 0" "Some 0" "Some 0" "Some 0"] n
  show ?thesis by blast
qed

text \<open>
  C10. For every descriptor, the command sequence that \<open>buildPath\<close> emits is empty
  exactly when \<open>max(r, 0) \<le> 0\<close> and \<open>max(r0, 0) \<le> 0\<close>; otherwise it begins with a
  \<open>MoveTo\<close> and ends with \<open>ClosePath\<close>.
\<close>

theorem path_empty_or_closed:
  "(buildPath nrm sh = [] \<longleftrightarrow> max (shape_r sh) 0 \<le> 0 \<and> max (shape_r0 sh) 0 \<le> 0) \<and>
   (buildPath nrm sh = [] \<or>
    (is_MoveTo (hd (buildPath nrm sh)) \<and> last (buildPath nrm sh) = ClosePath))"
proof (cases "effectiveRadii (shape_r sh) (shape_r0 sh)")
  case None
  then show ?thesis
    using buildPath_early[OF None, of nrm] by (simp add: effectiveRadii_None)
next
  case (Some p)
  obtain radius innerRadius where p: "p = (radius, innerRadius)" by (cases p)
  have ne: "\<not> (max (shape_r sh) 0 \<le> 0 \<and> max (shape_r0 sh) 0 \<le> 0)"
    using Some effectiveRadii_None[of "shape_r sh" "shape_r0 sh"] by simp
  obtain body where b: "buildPath nrm sh = body @ [ClosePath]"
    and hd: "\<exists>x y cs. body = MoveTo x y # cs"
    using buildPath_body[OF Some[unfolded p] refl, of nrm] sectorPath_hd fullRing_hd
    by (auto split: if_splits)
  then show ?thesis using ne by auto
qed

theorem path_empty_or_closed_witness:
  "buildPath normalizeArcAngles
     \<lparr>shape_cx = 1, shape_cy = 2, shape_startAngle = pi, shape_endAngle = pi,
      shape_clockwise = False, shape_r = 4, shape_r0 = 10, shape_cornerRadius = Array []\<rparr> \<noteq> [] \<and>
   \<not> (max (4::real) 0 \<le> 0 \<and> max (10::real) 0 \<le> 0) \<and>
   is_MoveTo (hd (buildPath normalizeArcAngles
     \<lparr>shape_cx = 1, shape_cy = 2, shape_startAngle = pi, shape_endAngle = pi,
      shape_clockwise = False, shape_r = 4, shape_r0 = 10, shape_cornerRadius = Array []\<rparr>)) \<and>
   last (buildPath normalizeArcAngles
     \<lparr>shape_cx = 1, shape_cy = 2, shape_startAngle = pi, shape_endAngle = pi,
      shape_clockwise = False, shape_r = 4, shape_r0 = 10, shape_cornerRadius = Array []\<rparr>) = ClosePath"
  using path_empty_or_closed[of normalizeArcAngles
      "\<lparr>shape_cx = 1, shape_cy = 2, shape_startAngle = pi, shape_endAngle = pi,
        shape_clockwise = False, shape_r = 4, shape_r0 = 10, shape_cornerRadius = Array []\<rparr>"]
  by auto

end
